theory Spec2Isabelle
  imports Complex_Main
begin

section \<open>Shard scheduling of \<open>open_lm/file_utils.py\<close>\<close>

text \<open>
  A shallow embedding of the shard allocator \<open>_single_epoch_string\<close>, of the manifest
  reader \<open>get_metadata_file\<close> and of the checkpoint counter \<open>log_num_checkpoints\<close>.

  Conventions of the embedding:
  \<^item> Python integers are \<open>int\<close>; list indexing and slicing follow Python, negative
    indices included (\<open>py_index\<close>, \<open>py_slice_to\<close>).
  \<^item> An exception is a value \<open>Inl e\<close> of \<open>error + 'a\<close>; a loop that need not end
    returns an \<open>option\<close>, \<open>None\<close> standing for a run that never returns.
  \<^item> Python floats (the mixing weights, the ratios of the diagnostics) are exact
    rationals: rounding of the float operations is not modelled.
  \<^item> Log output is modelled where a claim is about it (\<open>log_num_checkpoints\<close>); the
    warnings of the allocator are not, but every exception its diagnostics can raise is.
  \<^item> The file system and \<open>json.loads\<close> are parameters of the reader; the allocator
    takes the reader itself as a parameter.
\<close>

subsection \<open>Exceptions\<close>

datatype error =
    IndexError
  | KeyError
  | ValueError
  | ZeroDivisionError
  | TypeError
  | AssertionError
  | NotImplementedError
  | FileNotFoundError
  | JSONDecodeError

fun ebind :: "error + 'a \<Rightarrow> ('a \<Rightarrow> error + 'b) \<Rightarrow> error + 'b" where
  "ebind (Inl e) f = Inl e"
| "ebind (Inr x) f = f x"

text \<open>A list comprehension whose element expression may raise.\<close>

fun emap :: "('a \<Rightarrow> error + 'b) \<Rightarrow> 'a list \<Rightarrow> error + 'b list" where
  "emap f [] = Inr []"
| "emap f (x # xs) = ebind (f x) (\<lambda>y. ebind (emap f xs) (\<lambda>ys. Inr (y # ys)))"

text \<open>A \<open>for\<close> loop over a list whose body updates a state and may raise.\<close>

fun efold :: "('s \<Rightarrow> 'a \<Rightarrow> error + 's) \<Rightarrow> 'a list \<Rightarrow> 's \<Rightarrow> error + 's" where
  "efold f [] s = Inr s"
| "efold f (x # xs) s = ebind (f s x) (efold f xs)"

subsection \<open>Python lists and strings\<close>

text \<open>The subscript \<open>xs[i]\<close>: an index below zero counts from the end of the list.\<close>

definition py_index :: "'a list \<Rightarrow> int \<Rightarrow> error + 'a" where
  "py_index xs i =
     (if 0 \<le> i \<and> i < int (length xs) then Inr (xs ! nat i)
      else if i < 0 \<and> - int (length xs) \<le> i then Inr (xs ! nat (int (length xs) + i))
      else Inl IndexError)"

text \<open>The slice \<open>xs[:k]\<close>.\<close>

definition py_slice_to :: "'a list \<Rightarrow> int \<Rightarrow> 'a list" where
  "py_slice_to xs k =
     (if k < 0 then take (nat (int (length xs) + k)) xs else take (nat k) xs)"

text \<open>The floor division \<open>a // b\<close>.\<close>

definition py_floordiv :: "int \<Rightarrow> int \<Rightarrow> error + int" where
  "py_floordiv a b = (if b = 0 then Inl ZeroDivisionError else Inr (a div b))"

text \<open>\<open>range(n)\<close>, as indices.\<close>

definition py_range :: "int \<Rightarrow> nat list" where
  "py_range n = [0..<nat n]"

text \<open>\<open>s.split(sep)\<close> for a separator of one character, and \<open>sep.join(xs)\<close>.\<close>

fun py_split :: "char \<Rightarrow> string \<Rightarrow> string list" where
  "py_split sep [] = [[]]"
| "py_split sep (c # cs) =
     (if c = sep then [] # py_split sep cs
      else (case py_split sep cs of [] \<Rightarrow> [[c]] | s # ss \<Rightarrow> (c # s) # ss))"

fun py_join :: "string \<Rightarrow> string list \<Rightarrow> string" where
  "py_join sep [] = []"
| "py_join sep [x] = x"
| "py_join sep (x # y # zs) = x @ sep @ py_join sep (y # zs)"

subsection \<open>Manifests\<close>

text \<open>
  A manifest record is a JSON object with the key \<open>shard\<close> and the count under
  \<open>num_sequences\<close> or \<open>num_chunks\<close>; a key that is absent is \<open>None\<close>.
\<close>

record entry =
  shard :: string
  num_sequences :: "int option"
  num_chunks :: "int option"

text \<open>
  \<open>get_metadata_file\<close>: the text of the file is split at the newlines, the last piece
  is discarded and every other piece is parsed. \<open>fs\<close> maps a path to the decoded text
  of the file, \<open>loads\<close> is \<open>json.loads\<close>.
\<close>

definition newline :: char where
  "newline = CHR 0x0A"

definition get_metadata_file ::
  "(string \<Rightarrow> error + entry) \<Rightarrow> (string \<rightharpoonup> string) \<Rightarrow> string \<Rightarrow> error + entry list" where
  "get_metadata_file loads fs path =
     (case fs path of
        None \<Rightarrow> Inl FileNotFoundError
      | Some out \<Rightarrow> emap loads (butlast (py_split newline out)))"

type_synonym reader = "string \<Rightarrow> error + entry list"

text \<open>
  The lookup that every consumer of a manifest record writes out:
  \<^verbatim>\<open>try: m["num_sequences"]  except KeyError: m["num_chunks"]\<close>.
\<close>

definition sequences_or_chunks :: "entry \<Rightarrow> error + int" where
  "sequences_or_chunks m =
     (case num_sequences m of
        Some n \<Rightarrow> Inr n
      | None \<Rightarrow> (case num_chunks m of Some n \<Rightarrow> Inr n | None \<Rightarrow> Inl KeyError))"

text \<open>\<open>convert_metadata_to_dict\<close>: later records overwrite earlier ones of the same shard.\<close>

fun convert_metadata_to_dict_from ::
  "(string \<rightharpoonup> int) \<Rightarrow> entry list \<Rightarrow> error + (string \<rightharpoonup> int)" where
  "convert_metadata_to_dict_from d [] = Inr d"
| "convert_metadata_to_dict_from d (m # ms) =
     ebind (sequences_or_chunks m) (\<lambda>n. convert_metadata_to_dict_from (d(shard m \<mapsto> n)) ms)"

definition convert_metadata_to_dict :: "entry list \<Rightarrow> error + (string \<rightharpoonup> int)" where
  "convert_metadata_to_dict manifest = convert_metadata_to_dict_from Map.empty manifest"

subsection \<open>Loop conditions and diagnostics of the allocator\<close>

definition enough_shards :: "string list list \<Rightarrow> int \<Rightarrow> bool" where
  "enough_shards shard_lists min_shards_needed =
     list_all (\<lambda>sl. \<not> int (length sl) < min_shards_needed) shard_lists"

fun enough_samples :: "int list list \<Rightarrow> int list \<Rightarrow> error + bool" where
  "enough_samples [] needed = Inr True"
| "enough_samples (number_per_shard # rest) [] = Inl IndexError"
| "enough_samples (number_per_shard # rest) (k # ks) =
     (if sum_list number_per_shard < k then Inr False else enough_samples rest ks)"

text \<open>\<open>count_small_shards\<close> with its default ratio 0.9; \<open>max\<close> of no sizes raises.\<close>

definition count_small_shards :: "reader \<Rightarrow> string \<Rightarrow> error + nat" where
  "count_small_shards gmf path =
     ebind (gmf path) (\<lambda>data.
     ebind (emap sequences_or_chunks data) (\<lambda>shard_sizes.
       if shard_sizes = [] then Inl ValueError
       else Inr (length (filter
              (\<lambda>s. (of_int s :: rat) < (9 / 10) * of_int (Max (set shard_sizes)))
              shard_sizes))))"

text \<open>
  \<open>np.median\<close>; the median of no sizes is \<open>nan\<close>, here \<open>None\<close>, and every
  comparison with \<open>nan\<close> is false.
\<close>

definition median :: "int list \<Rightarrow> rat option" where
  "median xs =
     (if xs = [] then None
      else (let s = sort xs; n = length s
            in Some (if even n then (of_int (s ! (n div 2 - 1)) + of_int (s ! (n div 2))) / 2
                     else of_int (s ! (n div 2)))))"

definition nan_less :: "rat option \<Rightarrow> rat option \<Rightarrow> bool" where
  "nan_less a b = (case (a, b) of (Some x, Some y) \<Rightarrow> x < y | _ \<Rightarrow> False)"

definition py_max :: "rat option list \<Rightarrow> error + rat option" where
  "py_max xs =
     (case xs of [] \<Rightarrow> Inl ValueError
      | x # rest \<Rightarrow> Inr (fold (\<lambda>y m. if nan_less m y then y else m) rest x))"

definition py_min :: "rat option list \<Rightarrow> error + rat option" where
  "py_min xs =
     (case xs of [] \<Rightarrow> Inl ValueError
      | x # rest \<Rightarrow> Inr (fold (\<lambda>y m. if nan_less y m then y else m) rest x))"

definition are_sources_imbalanced_with_each_other :: "reader \<Rightarrow> string list \<Rightarrow> error + bool" where
  "are_sources_imbalanced_with_each_other gmf paths =
     ebind (emap (\<lambda>p. ebind (gmf p) (\<lambda>data.
                      ebind (emap sequences_or_chunks data) (\<lambda>shard_sizes.
                        Inr (median shard_sizes)))) paths)
       (\<lambda>median_shard_size_per_source.
     ebind (py_max median_shard_size_per_source) (\<lambda>mx.
     ebind (py_min median_shard_size_per_source) (\<lambda>mn.
       Inr (nan_less (map_option (\<lambda>m. 2 * m) mn) mx))))"

subsection \<open>The allocator \<open>_single_epoch_string\<close>\<close>

text \<open>The three lists that the accumulation loop updates.\<close>

record alloc_state =
  shard_list_per_source :: "string list list"
  num_samples_per_source :: "int list list"
  next_shard_per_source :: "int list"

text \<open>
  The quotas. The assertion on the number of weights has passed when they are computed,
  so \<open>weights[i]\<close> is in range; a zero sum of the weights raises at the first source.
\<close>

definition needed_samples_per_source :: "rat list \<Rightarrow> int \<Rightarrow> nat \<Rightarrow> error + int list" where
  "needed_samples_per_source weights num_samples num_sources =
     emap (\<lambda>i. if sum_list weights = 0 then Inl ZeroDivisionError
                else Inr \<lceil>(weights ! i) * of_int num_samples / sum_list weights\<rceil>)
       [0..<num_sources]"

definition default_weights :: "rat list option \<Rightarrow> nat \<Rightarrow> rat list" where
  "default_weights weights num_sources =
     (case weights of
        None \<Rightarrow> replicate num_sources (1 / of_nat num_sources)
      | Some ws \<Rightarrow> ws)"

text \<open>
  The diagnostics at the head of \<open>_single_epoch_string\<close>: their warnings are not
  modelled, their exceptions are.
\<close>

definition source_diagnostics :: "reader \<Rightarrow> string list \<Rightarrow> error + unit" where
  "source_diagnostics gmf paths =
     ebind (if length paths > 1 then are_sources_imbalanced_with_each_other gmf paths
            else Inr False) (\<lambda>_.
     ebind (emap (count_small_shards gmf) paths) (\<lambda>_. Inr ()))"

text \<open>
  Everything before the accumulation loop: the diagnostics, the weights, the assertion, the
  quotas, the manifests.
\<close>

definition single_epoch_setup ::
  "reader \<Rightarrow> int \<Rightarrow> string list \<Rightarrow> rat list option \<Rightarrow> error + (int list \<times> entry list list)" where
  "single_epoch_setup gmf num_samples paths weights =
     (let num_sources = length paths in
      ebind (source_diagnostics gmf paths) (\<lambda>_.
        (let ws = default_weights weights num_sources in
         if length ws \<noteq> num_sources then Inl AssertionError
         else
           ebind (needed_samples_per_source ws num_samples num_sources)
             (\<lambda>needed_samples_per_source.
           ebind (emap gmf paths) (\<lambda>manifests.
             Inr (needed_samples_per_source, manifests))))))"

text \<open>The body of \<open>for i in range(num_sources)\<close> inside the \<open>while\<close> loop.\<close>

definition add_shard :: "entry list list \<Rightarrow> alloc_state \<Rightarrow> nat \<Rightarrow> error + alloc_state" where
  "add_shard manifests st i =
     ebind (py_index manifests (int i)) (\<lambda>manifest.
     ebind (py_index (next_shard_per_source st) (int i)) (\<lambda>nxt.
     ebind (py_index manifest nxt) (\<lambda>m.
     ebind (sequences_or_chunks m) (\<lambda>num_samples_shard.
     ebind (py_index (shard_list_per_source st) (int i)) (\<lambda>sl.
     ebind (py_index (num_samples_per_source st) (int i)) (\<lambda>ns.
       Inr (st\<lparr>shard_list_per_source := (shard_list_per_source st)[i := sl @ [shard m]],
               num_samples_per_source :=
                 (num_samples_per_source st)[i := ns @ [num_samples_shard]],
               next_shard_per_source := (next_shard_per_source st)[i := nxt + 1]\<rparr>)))))))"

definition add_round :: "entry list list \<Rightarrow> nat \<Rightarrow> alloc_state \<Rightarrow> error + alloc_state" where
  "add_round manifests num_sources st = efold (add_shard manifests) [0..<num_sources] st"

text \<open>The condition of the \<open>while\<close> loop; \<open>or\<close> does not evaluate its second operand
  when the first is true.\<close>

definition need_more :: "int list \<Rightarrow> int \<Rightarrow> alloc_state \<Rightarrow> error + bool" where
  "need_more needed total_num_workers st =
     (if \<not> enough_shards (shard_list_per_source st) total_num_workers then Inr True
      else ebind (enough_samples (num_samples_per_source st) needed) (\<lambda>b. Inr (\<not> b)))"

partial_function (option) single_epoch_while ::
  "entry list list \<Rightarrow> int list \<Rightarrow> int \<Rightarrow> nat \<Rightarrow> alloc_state \<Rightarrow> (error + alloc_state) option" where
  "single_epoch_while manifests needed total_num_workers num_sources st =
     (case need_more needed total_num_workers st of
        Inl e \<Rightarrow> Some (Inl e)
      | Inr b \<Rightarrow>
          if b then
            (case add_round manifests num_sources st of
               Inl e \<Rightarrow> Some (Inl e)
             | Inr st' \<Rightarrow> single_epoch_while manifests needed total_num_workers num_sources st')
          else Some (Inr st))"

declare single_epoch_while.simps [code]

text \<open>The body of the second loop: truncate to a multiple of the workers, put back.\<close>

definition put_back :: "int \<Rightarrow> int list \<Rightarrow> alloc_state \<Rightarrow> nat \<Rightarrow> error + alloc_state" where
  "put_back total_num_workers starting_shard_per_source st i =
     ebind (py_index (shard_list_per_source st) (int i)) (\<lambda>sl.
     ebind (py_floordiv (int (length sl)) total_num_workers) (\<lambda>num_multiples.
     ebind (py_index (num_samples_per_source st) (int i)) (\<lambda>ns.
       (let sl' = py_slice_to sl (num_multiples * total_num_workers);
            ns' = py_slice_to ns (num_multiples * total_num_workers)
        in ebind (py_index starting_shard_per_source (int i)) (\<lambda>start.
           if i < length (next_shard_per_source st) then
             Inr (st\<lparr>shard_list_per_source := (shard_list_per_source st)[i := sl'],
                     num_samples_per_source := (num_samples_per_source st)[i := ns'],
                     next_shard_per_source :=
                       (next_shard_per_source st)[i := start + int (length sl')]\<rparr>)
           else Inl IndexError)))))"

definition initial_state :: "int list \<Rightarrow> nat \<Rightarrow> alloc_state" where
  "initial_state starting_shard_per_source num_sources =
     \<lparr>shard_list_per_source = replicate num_sources [],
      num_samples_per_source = replicate num_sources [],
      next_shard_per_source = starting_shard_per_source\<rparr>"

text \<open>The state when the \<open>while\<close> loop has ended: the accumulated shards.\<close>

definition single_epoch_accumulated ::
  "reader \<Rightarrow> int \<Rightarrow> int list \<Rightarrow> string list \<Rightarrow> rat list option \<Rightarrow> int \<Rightarrow> int \<Rightarrow>
     (error + alloc_state) option" where
  "single_epoch_accumulated gmf num_samples starting_shard_per_source paths weights
       num_workers_per_gpu world_size =
     (case single_epoch_setup gmf num_samples paths weights of
        Inl e \<Rightarrow> Some (Inl e)
      | Inr (needed, manifests) \<Rightarrow>
          single_epoch_while manifests needed (num_workers_per_gpu * world_size)
            (length paths) (initial_state starting_shard_per_source (length paths)))"

text \<open>The state when the second loop has ended: the committed shards and cursors.\<close>

definition single_epoch_committed ::
  "reader \<Rightarrow> int \<Rightarrow> int list \<Rightarrow> string list \<Rightarrow> rat list option \<Rightarrow> int \<Rightarrow> int \<Rightarrow>
     (error + alloc_state) option" where
  "single_epoch_committed gmf num_samples starting_shard_per_source paths weights
       num_workers_per_gpu world_size =
     (case single_epoch_accumulated gmf num_samples starting_shard_per_source paths weights
             num_workers_per_gpu world_size of
        None \<Rightarrow> None
      | Some (Inl e) \<Rightarrow> Some (Inl e)
      | Some (Inr acc) \<Rightarrow>
          Some (efold (put_back (num_workers_per_gpu * world_size) starting_shard_per_source)
                  [0..<length paths] acc))"

text \<open>The shard string of one source.\<close>

definition shard_string :: "string \<Rightarrow> string list \<Rightarrow> string" where
  "shard_string source_path shard_list_source =
     (let shard_root_source =
            py_join ''/'' (butlast (py_split CHR ''/'' source_path)) @ ''/'';
          shard_string_source =
            (if length shard_list_source = 1
             then shard_root_source @ hd shard_list_source @ ''.tar''
             else shard_root_source @ ''{'' @ py_join '','' shard_list_source @ ''}.tar'')
      in if take 2 source_path = ''s3''
         then ''pipe:aws s3 cp '' @ shard_string_source @ '' -''
         else shard_string_source)"

definition shard_strings :: "string list \<Rightarrow> string list list \<Rightarrow> error + string list" where
  "shard_strings paths shard_lists =
     emap (\<lambda>(i, source_path).
            ebind (py_index shard_lists (int i)) (\<lambda>sl. Inr (shard_string source_path sl)))
       (enumerate 0 paths)"

text \<open>\<open>_single_epoch_string\<close>: shard strings, samples per source, next shard per source.\<close>

definition single_epoch_string ::
  "reader \<Rightarrow> int \<Rightarrow> int list \<Rightarrow> string list \<Rightarrow> rat list option \<Rightarrow> int \<Rightarrow> int \<Rightarrow>
     (error + string list \<times> int list \<times> int list) option" where
  "single_epoch_string gmf num_samples starting_shard_per_source paths weights
       num_workers_per_gpu world_size =
     (case single_epoch_committed gmf num_samples starting_shard_per_source paths weights
             num_workers_per_gpu world_size of
        None \<Rightarrow> None
      | Some (Inl e) \<Rightarrow> Some (Inl e)
      | Some (Inr st) \<Rightarrow>
          Some (ebind (shard_strings paths (shard_list_per_source st)) (\<lambda>strs.
                  Inr (strs, map sum_list (num_samples_per_source st),
                       next_shard_per_source st))))"

definition get_string_for_epoch ::
  "reader \<Rightarrow> int \<Rightarrow> int list \<Rightarrow> string list \<Rightarrow> rat list option \<Rightarrow> int \<Rightarrow> int \<Rightarrow> bool \<Rightarrow>
     (error + string list \<times> int list \<times> int list) option" where
  "get_string_for_epoch gmf num_samples starting_points paths weights num_workers_per_gpu
       world_size multi_epoch =
     (if multi_epoch then Some (Inl NotImplementedError)
      else single_epoch_string gmf num_samples starting_points paths weights
             num_workers_per_gpu world_size)"

subsection \<open>The allocator on a store of list objects\<close>

text \<open>
  The argument \<open>starting_shard_per_source\<close> is a reference to a list that the caller
  keeps. For the claim about aliasing, the allocator is modelled a second time on a store:
  a list of list objects, a reference being an index. \<open>copy.deepcopy\<close> allocates a new
  object; \<open>next_shard_per_source[i] += 1\<close> and the assignment in the second loop write
  to the object that \<open>next_shard_per_source\<close> refers to, \<open>starting_shard_per_source[i]\<close>
  reads the object of the caller. An exception leaves the store as it is at that moment
  (\<open>efold_keep\<close> returns the state in which the body raised). \<open>paths\<close> and
  \<open>weights\<close> are values: the source has no statement that writes to them
  (\<open>weights = [...]\<close> binds a local name).
\<close>

type_synonym store = "int list list"

definition deepcopy :: "nat \<Rightarrow> store \<Rightarrow> nat \<times> store" where
  "deepcopy a h = (length h, h @ [h ! a])"

text \<open>The two local lists of lists and the store.\<close>

record store_state =
  shard_lists :: "string list list"
  sample_lists :: "int list list"
  objects :: store

fun efold_keep :: "('s \<Rightarrow> 'a \<Rightarrow> error + 's) \<Rightarrow> 'a list \<Rightarrow> 's \<Rightarrow> error \<times> 's + 's" where
  "efold_keep f [] s = Inr s"
| "efold_keep f (x # xs) s =
     (case f s x of Inl e \<Rightarrow> Inl (e, s) | Inr s' \<Rightarrow> efold_keep f xs s')"

definition add_shard_store ::
  "entry list list \<Rightarrow> nat \<Rightarrow> store_state \<Rightarrow> nat \<Rightarrow> error + store_state" where
  "add_shard_store manifests b st i =
     ebind (py_index manifests (int i)) (\<lambda>manifest.
     ebind (py_index (objects st ! b) (int i)) (\<lambda>nxt.
     ebind (py_index manifest nxt) (\<lambda>m.
     ebind (sequences_or_chunks m) (\<lambda>num_samples_shard.
     ebind (py_index (shard_lists st) (int i)) (\<lambda>sl.
     ebind (py_index (sample_lists st) (int i)) (\<lambda>ns.
       Inr (st\<lparr>shard_lists := (shard_lists st)[i := sl @ [shard m]],
               sample_lists := (sample_lists st)[i := ns @ [num_samples_shard]],
               objects := (objects st)[b := (objects st ! b)[i := nxt + 1]]\<rparr>)))))))"

definition need_more_store :: "int list \<Rightarrow> int \<Rightarrow> store_state \<Rightarrow> error + bool" where
  "need_more_store needed total_num_workers st =
     (if \<not> enough_shards (shard_lists st) total_num_workers then Inr True
      else ebind (enough_samples (sample_lists st) needed) (\<lambda>b. Inr (\<not> b)))"

partial_function (option) single_epoch_while_store ::
  "entry list list \<Rightarrow> int list \<Rightarrow> int \<Rightarrow> nat \<Rightarrow> nat \<Rightarrow> store_state \<Rightarrow>
     (error \<times> store_state + store_state) option" where
  "single_epoch_while_store manifests needed total_num_workers num_sources b st =
     (case need_more_store needed total_num_workers st of
        Inl e \<Rightarrow> Some (Inl (e, st))
      | Inr go \<Rightarrow>
          if go then
            (case efold_keep (add_shard_store manifests b) [0..<num_sources] st of
               Inl failed \<Rightarrow> Some (Inl failed)
             | Inr st' \<Rightarrow>
                 single_epoch_while_store manifests needed total_num_workers num_sources b st')
          else Some (Inr st))"

declare single_epoch_while_store.simps [code]

definition put_back_store ::
  "int \<Rightarrow> nat \<Rightarrow> nat \<Rightarrow> store_state \<Rightarrow> nat \<Rightarrow> error + store_state" where
  "put_back_store total_num_workers a b st i =
     ebind (py_index (shard_lists st) (int i)) (\<lambda>sl.
     ebind (py_floordiv (int (length sl)) total_num_workers) (\<lambda>num_multiples.
     ebind (py_index (sample_lists st) (int i)) (\<lambda>ns.
       (let sl' = py_slice_to sl (num_multiples * total_num_workers);
            ns' = py_slice_to ns (num_multiples * total_num_workers)
        in ebind (py_index (objects st ! a) (int i)) (\<lambda>start.
           if i < length (objects st ! b) then
             Inr (st\<lparr>shard_lists := (shard_lists st)[i := sl'],
                     sample_lists := (sample_lists st)[i := ns'],
                     objects := (objects st)[b := (objects st ! b)[i := start + int (length sl')]]\<rparr>)
           else Inl IndexError)))))"

definition single_epoch_string_store ::
  "reader \<Rightarrow> int \<Rightarrow> nat \<Rightarrow> string list \<Rightarrow> rat list option \<Rightarrow> int \<Rightarrow> int \<Rightarrow> store \<Rightarrow>
     ((error + string list \<times> int list \<times> nat) \<times> store) option" where
  "single_epoch_string_store gmf num_samples starting_shard_per_source paths weights
       num_workers_per_gpu world_size h =
     (case single_epoch_setup gmf num_samples paths weights of
        Inl e \<Rightarrow> Some (Inl e, h)
      | Inr (needed, manifests) \<Rightarrow>
          (let (next_shard_per_source, h1) = deepcopy starting_shard_per_source h;
               num_sources = length paths;
               total_num_workers = num_workers_per_gpu * world_size
           in case single_epoch_while_store manifests needed total_num_workers num_sources
                     next_shard_per_source
                     \<lparr>shard_lists = replicate num_sources [],
                      sample_lists = replicate num_sources [],
                      objects = h1\<rparr> of
                None \<Rightarrow> None
              | Some (Inl (e, st)) \<Rightarrow> Some (Inl e, objects st)
              | Some (Inr acc) \<Rightarrow>
                  (case efold_keep
                          (put_back_store total_num_workers starting_shard_per_source
                             next_shard_per_source) [0..<num_sources] acc of
                     Inl (e, st) \<Rightarrow> Some (Inl e, objects st)
                   | Inr st \<Rightarrow>
                       (case shard_strings paths (shard_lists st) of
                          Inl e \<Rightarrow> Some (Inl e, objects st)
                        | Inr strs \<Rightarrow>
                            Some (Inr (strs, map sum_list (sample_lists st),
                                       next_shard_per_source), objects st)))))"

subsection \<open>The checkpoint counter \<open>log_num_checkpoints\<close>\<close>

text \<open>The remainder \<open>a % b\<close> and the statement \<open>xs[i] += v\<close>.\<close>

definition py_mod :: "int \<Rightarrow> int \<Rightarrow> error + int" where
  "py_mod a b = (if b = 0 then Inl ZeroDivisionError else Inr (a mod b))"

definition py_add_at :: "int list \<Rightarrow> int \<Rightarrow> int \<Rightarrow> error + int list" where
  "py_add_at xs i v =
     (if 0 \<le> i \<and> i < int (length xs) then Inr (xs[nat i := xs ! nat i + v])
      else if i < 0 \<and> - int (length xs) \<le> i
      then Inr (xs[nat (int (length xs) + i) := xs ! nat (int (length xs) + i) + v])
      else Inl IndexError)"

text \<open>
  The samples of one source per global worker: shard \<open>i\<close> goes to worker
  \<open>i % num_global_workers\<close>.
\<close>

definition num_samples_per_global_worker :: "int \<Rightarrow> int list \<Rightarrow> error + int list" where
  "num_samples_per_global_worker num_global_workers num_samples_per_shard =
     efold (\<lambda>acc (i, elem).
              ebind (py_mod (int i) num_global_workers) (\<lambda>w. py_add_at acc w elem))
       (enumerate 0 num_samples_per_shard) (replicate (nat num_global_workers) 0)"

text \<open>
  \<open>sum\<close> of the arrays of the sources: it starts from the integer 0, which it also
  returns when there is no source (\<open>None\<close> here); arrays are added element by element.
  The integers of the arrays are unbounded here (the arrays of the source hold 64-bit
  integers).
\<close>

definition sum_arrays :: "int list list \<Rightarrow> int list option" where
  "sum_arrays arrays =
     (case arrays of [] \<Rightarrow> None | a # rest \<Rightarrow> Some (foldl (map2 (+)) a rest))"

definition array_index :: "int list option \<Rightarrow> int \<Rightarrow> error + int" where
  "array_index arr i = (case arr of None \<Rightarrow> Inl TypeError | Some xs \<Rightarrow> py_index xs i)"

text \<open>The batches of every GPU, from the samples per shard of every source.\<close>

definition num_batches_per_gpu ::
  "int \<Rightarrow> int \<Rightarrow> int \<Rightarrow> int list list \<Rightarrow> error + int list" where
  "num_batches_per_gpu world_size workers global_batch_size num_samples_per_shard_per_source =
     (let num_global_workers = world_size * workers in
      ebind (emap (num_samples_per_global_worker num_global_workers)
               num_samples_per_shard_per_source)
        (\<lambda>num_samples_per_global_worker_per_source.
      ebind (emap (emap (\<lambda>n. py_floordiv n global_batch_size))
               num_samples_per_global_worker_per_source)
        (\<lambda>num_batches_per_global_worker_per_source.
      (let num_batches_per_global_worker = sum_arrays num_batches_per_global_worker_per_source
       in efold (\<lambda>per_gpu worker_id.
                   ebind (py_mod (int worker_id) world_size) (\<lambda>gpu_id.
                   ebind (py_index per_gpu gpu_id) (\<lambda>_.
                   ebind (array_index num_batches_per_global_worker (int worker_id)) (\<lambda>b.
                     py_add_at per_gpu gpu_id b))))
            (py_range num_global_workers) (replicate (nat world_size) 0)))))"

text \<open>\<open>min\<close> of a list of integers.\<close>

definition py_min_int :: "int list \<Rightarrow> error + int" where
  "py_min_int xs = (if xs = [] then Inl ValueError else Inr (Min (set xs)))"

record args =
  dataset_manifest :: "string list option"
  world_size :: int
  workers :: int
  train_num_samples :: int
  train_data_mix_weights :: "rat list option"
  global_batch_size :: int
  seq_len :: int
  epochs :: int

datatype log_record =
    Info_precounting
  | Info_checkpoint int int int
  | Info_number_of_checkpoints int
  | Warning_epochs int int

record count_state =
  steps_done :: int
  tokens_seen :: int
  next_shards :: "int list"
  checkpoints_made :: int
  logged :: "log_record list"

text \<open>
  The samples of the shards of every source, looked up by shard id in the dictionaries of
  the manifests. \<open>shard_ids\<close> stands for the expression that recovers the shard ids from a
  shard string with \<open>braceexpand\<close> and \<open>pathlib\<close>.
\<close>

definition num_samples_per_shard_per_source ::
  "(string \<Rightarrow> string list) \<Rightarrow> (string \<rightharpoonup> int) list \<Rightarrow> string list \<Rightarrow> error + int list list" where
  "num_samples_per_shard_per_source shard_ids manifests shard_strings_per_source =
     (let shard_ids_per_source = map shard_ids shard_strings_per_source in
      emap (\<lambda>i. ebind (py_index shard_ids_per_source (int i)) (\<lambda>ids.
                  emap (\<lambda>shard_id. case (manifests ! i) shard_id of
                                      None \<Rightarrow> Inl KeyError
                                    | Some n \<Rightarrow> Inr n) ids))
        [0..<length manifests])"

text \<open>The body of the \<open>while\<close> loop; \<open>master\<close> is \<open>is_master(args)\<close>.\<close>

definition checkpoint_round ::
  "reader \<Rightarrow> (string \<Rightarrow> string list) \<Rightarrow> bool \<Rightarrow> int \<Rightarrow> args \<Rightarrow> string list \<Rightarrow>
     (string \<rightharpoonup> int) list \<Rightarrow> count_state \<Rightarrow> (error + count_state) option" where
  "checkpoint_round gmf shard_ids master total_steps a paths manifests st =
     (case get_string_for_epoch gmf (train_num_samples a) (next_shards st) paths
             (train_data_mix_weights a) (workers a) (world_size a) False of
        None \<Rightarrow> None
      | Some (Inl e) \<Rightarrow> Some (Inl e)
      | Some (Inr (shard_strings_per_source, _, nxt)) \<Rightarrow>
          Some (
            ebind (num_samples_per_shard_per_source shard_ids manifests
                     shard_strings_per_source) (\<lambda>samples.
            ebind (num_batches_per_gpu (world_size a) (workers a) (global_batch_size a)
                     samples) (\<lambda>per_gpu.
            ebind (py_min_int per_gpu) (\<lambda>steps_epoch.
              (let steps = steps_done st + steps_epoch;
                   steps' = (if steps > total_steps then total_steps else steps);
                   tokens = steps' * global_batch_size a * seq_len a;
                   made = checkpoints_made st + 1
               in Inr \<lparr>steps_done = steps', tokens_seen = tokens,
                       next_shards = nxt, checkpoints_made = made,
                       logged = logged st @
                         (if master then [Info_checkpoint made steps' tokens] else [])\<rparr>))))))"

partial_function (option) log_num_checkpoints_while ::
  "reader \<Rightarrow> (string \<Rightarrow> string list) \<Rightarrow> bool \<Rightarrow> int \<Rightarrow> args \<Rightarrow> string list \<Rightarrow>
     (string \<rightharpoonup> int) list \<Rightarrow> count_state \<Rightarrow> (error + count_state) option" where
  "log_num_checkpoints_while gmf shard_ids master total_steps a paths manifests st =
     (if steps_done st < total_steps then
        (case checkpoint_round gmf shard_ids master total_steps a paths manifests st of
           None \<Rightarrow> None
         | Some (Inl e) \<Rightarrow> Some (Inl e)
         | Some (Inr st') \<Rightarrow>
             log_num_checkpoints_while gmf shard_ids master total_steps a paths manifests st')
      else Some (Inr st))"

declare log_num_checkpoints_while.simps [code]

text \<open>
  \<open>log_num_checkpoints\<close> returns nothing; the model returns the variables of the function
  and the log when it ends.
\<close>

definition log_num_checkpoints ::
  "reader \<Rightarrow> (string \<Rightarrow> string list) \<Rightarrow> bool \<Rightarrow> int \<Rightarrow> args \<Rightarrow> (error + count_state) option" where
  "log_num_checkpoints gmf shard_ids master total_steps a =
     (case dataset_manifest a of
        None \<Rightarrow> Some (Inl AssertionError)
      | Some paths \<Rightarrow>
          (case ebind (emap gmf paths) (emap convert_metadata_to_dict) of
             Inl e \<Rightarrow> Some (Inl e)
           | Inr manifests \<Rightarrow>
               (case log_num_checkpoints_while gmf shard_ids master total_steps a paths manifests
                       \<lparr>steps_done = 0, tokens_seen = 0,
                        next_shards = replicate (length paths) 0, checkpoints_made = 0,
                        logged = (if master then [Info_precounting] else [])\<rparr> of
                  None \<Rightarrow> None
                | Some (Inl e) \<Rightarrow> Some (Inl e)
                | Some (Inr st) \<Rightarrow>
                    Some (Inr (st\<lparr>logged := logged st @
                      (if master then
                         Info_number_of_checkpoints (checkpoints_made st) #
                         (if checkpoints_made st \<noteq> epochs a
                          then [Warning_epochs (epochs a) (checkpoints_made st)] else [])
                       else [])\<rparr>)))))"

subsection \<open>Auxiliary notions of the proofs\<close>

text \<open>The invariant of the accumulation loop.\<close>

definition acc_inv :: "int list \<Rightarrow> nat \<Rightarrow> alloc_state \<Rightarrow> bool" where
  "acc_inv start n st \<longleftrightarrow>
     length (shard_list_per_source st) = n \<and> length (num_samples_per_source st) = n \<and>
     length (next_shard_per_source st) = length start \<and>
     (\<forall>i<n. length (num_samples_per_source st ! i) = length (shard_list_per_source st ! i) \<and>
        next_shard_per_source st ! i = start ! i + int (length (shard_list_per_source st ! i)))"

text \<open>The objects that were in the store before the call are as they were; \<open>b\<close> is new.\<close>

definition keeps :: "store \<Rightarrow> nat \<Rightarrow> store_state \<Rightarrow> bool" where
  "keeps h b st \<longleftrightarrow>
     length h \<le> b \<and> b < length (objects st) \<and> take (length h) (objects st) = h"

text \<open>From the store to the values: the state of the loop, its result, and the references.\<close>

definition abs_state :: "nat \<Rightarrow> store_state \<Rightarrow> alloc_state" where
  "abs_state b st =
     \<lparr>shard_list_per_source = shard_lists st, num_samples_per_source = sample_lists st,
      next_shard_per_source = objects st ! b\<rparr>"

definition abs_result :: "nat \<Rightarrow> error \<times> store_state + store_state \<Rightarrow> error + alloc_state" where
  "abs_result b r = (case r of Inl (e, s) \<Rightarrow> Inl e | Inr s \<Rightarrow> Inr (abs_state b s))"

definition refs_ok :: "nat \<Rightarrow> nat \<Rightarrow> int list \<Rightarrow> store_state \<Rightarrow> bool" where
  "refs_ok a b start st \<longleftrightarrow>
     a \<noteq> b \<and> a < length (objects st) \<and> b < length (objects st) \<and> objects st ! a = start"









subsection \<open>Example inputs\<close>

text \<open>One source of ten shards of 100 samples each.\<close>

definition demo_manifest :: "entry list" where
  "demo_manifest =
     map (\<lambda>k. \<lparr>shard = ''shard_'' @ [char_of (48 + k)], num_sequences = Some 100,
               num_chunks = None\<rparr>) [0..<10]"

definition demo_reader :: reader where
  "demo_reader path =
     (if path = ''data/manifest.jsonl'' then Inr demo_manifest else Inl FileNotFoundError)"

text \<open>One source of three shards of 100 samples each.\<close>

definition short_manifest :: "entry list" where
  "short_manifest =
     [\<lparr>shard = ''a'', num_sequences = Some 100, num_chunks = None\<rparr>,
      \<lparr>shard = ''b'', num_sequences = Some 100, num_chunks = None\<rparr>,
      \<lparr>shard = ''c'', num_sequences = None, num_chunks = Some 100\<rparr>]"

definition short_reader :: reader where
  "short_reader path =
     (if path = ''data/short.jsonl'' then Inr short_manifest else Inl FileNotFoundError)"





text \<open>
  A parser that knows two record texts (written without the quotation marks of JSON), and
  two files with these records: the first does not end with a newline, the second does.
\<close>

definition record_a :: string where
  "record_a = ''{shard: a, num_sequences: 100}''"

definition record_b :: string where
  "record_b = ''{shard: b, num_chunks: 50}''"

definition demo_loads :: "string \<Rightarrow> error + entry" where
  "demo_loads line =
     (if line = record_a
      then Inr \<lparr>shard = ''a'', num_sequences = Some 100, num_chunks = None\<rparr>
      else if line = record_b
      then Inr \<lparr>shard = ''b'', num_sequences = None, num_chunks = Some 50\<rparr>
      else Inl JSONDecodeError)"

definition demo_fs :: "string \<rightharpoonup> string" where
  "demo_fs =
     [''data/open.jsonl'' \<mapsto> record_a @ [newline] @ record_b,
      ''data/closed.jsonl'' \<mapsto> record_a @ [newline] @ record_b @ [newline]]"

section \<open>Properties\<close>

subsection \<open>The error monad and Python lists\<close>


lemma py_index_nat:
  "py_index xs (int i) = (if i < length xs then Inr (xs ! i) else Inl IndexError)"
  by (simp add: py_index_def)

lemma ebind_eq_Inr: "ebind m f = Inr y \<longleftrightarrow> (\<exists>x. m = Inr x \<and> f x = Inr y)"
  by (cases m) auto


lemma efold_append: "efold f (xs @ ys) s = ebind (efold f xs s) (efold f ys)"
proof (induction xs arbitrary: s)
  case Nil
  show ?case by simp
next
  case (Cons x xs)
  show ?case by (cases "f s x") (simp_all add: Cons.IH)
qed

lemma efold_upt_Suc:
  "efold f [0..<Suc n] s = ebind (efold f [0..<n] s) (\<lambda>s'. f s' n)"
proof -
  have "efold f [n] = (\<lambda>s'. f s' n)"
  proof
    fix s' show "efold f [n] s' = f s' n" by (cases "f s' n") simp_all
  qed
  then show ?thesis by (simp add: efold_append)
qed

subsection \<open>The two loops of the allocator\<close>

lemma put_back_Inr:
  assumes "put_back t start st i = Inr st'"
  shows "t \<noteq> 0 \<and> i < length (shard_list_per_source st) \<and> i < length (num_samples_per_source st)
     \<and> i < length start \<and> i < length (next_shard_per_source st)
     \<and> st' = st\<lparr>shard_list_per_source := (shard_list_per_source st)
               [i := py_slice_to (shard_list_per_source st ! i)
                      (int (length (shard_list_per_source st ! i)) div t * t)],
             num_samples_per_source := (num_samples_per_source st)
               [i := py_slice_to (num_samples_per_source st ! i)
                      (int (length (shard_list_per_source st ! i)) div t * t)],
             next_shard_per_source := (next_shard_per_source st)
               [i := start ! i + int (length (py_slice_to (shard_list_per_source st ! i)
                      (int (length (shard_list_per_source st ! i)) div t * t)))]\<rparr>"
  using assms
  by (auto simp: put_back_def py_floordiv_def py_index_nat Let_def ebind_eq_Inr split: if_splits)


lemma put_back_fold:
  "efold (put_back t start) [0..<n] acc = Inr st \<Longrightarrow>
     length (shard_list_per_source st) = length (shard_list_per_source acc) \<and>
     length (num_samples_per_source st) = length (num_samples_per_source acc) \<and>
     length (next_shard_per_source st) = length (next_shard_per_source acc) \<and>
     (\<forall>i<n. t \<noteq> 0 \<and> i < length (shard_list_per_source acc) \<and> i < length start \<and>
        i < length (num_samples_per_source acc) \<and> i < length (next_shard_per_source acc) \<and>
        shard_list_per_source st ! i =
          py_slice_to (shard_list_per_source acc ! i)
            (int (length (shard_list_per_source acc ! i)) div t * t) \<and>
        num_samples_per_source st ! i =
          py_slice_to (num_samples_per_source acc ! i)
            (int (length (shard_list_per_source acc ! i)) div t * t) \<and>
        next_shard_per_source st ! i = start ! i + int (length (shard_list_per_source st ! i))) \<and>
     (\<forall>i\<ge>n. shard_list_per_source st ! i = shard_list_per_source acc ! i \<and>
        num_samples_per_source st ! i = num_samples_per_source acc ! i \<and>
        next_shard_per_source st ! i = next_shard_per_source acc ! i)"
proof (induction n arbitrary: st)
  case 0
  then show ?case by simp
next
  case (Suc n)
  from Suc.prems obtain mid where mid: "efold (put_back t start) [0..<n] acc = Inr mid"
    and step: "put_back t start mid n = Inr st"
    unfolding efold_upt_Suc by (auto simp: ebind_eq_Inr)
  note IH = Suc.IH [OF mid]
  note P = put_back_Inr [OF step]
  have len: "length (shard_list_per_source st) = length (shard_list_per_source acc)"
    "length (num_samples_per_source st) = length (num_samples_per_source acc)"
    "length (next_shard_per_source st) = length (next_shard_per_source acc)"
    using IH P by simp_all
  have old: "\<forall>i<n. t \<noteq> 0 \<and> i < length (shard_list_per_source acc) \<and> i < length start \<and>
        i < length (num_samples_per_source acc) \<and> i < length (next_shard_per_source acc) \<and>
        shard_list_per_source st ! i =
          py_slice_to (shard_list_per_source acc ! i)
            (int (length (shard_list_per_source acc ! i)) div t * t) \<and>
        num_samples_per_source st ! i =
          py_slice_to (num_samples_per_source acc ! i)
            (int (length (shard_list_per_source acc ! i)) div t * t) \<and>
        next_shard_per_source st ! i = start ! i + int (length (shard_list_per_source st ! i))"
    using IH P by (simp add: nth_list_update)
  have new: "t \<noteq> 0 \<and> n < length (shard_list_per_source acc) \<and> n < length start \<and>
        n < length (num_samples_per_source acc) \<and> n < length (next_shard_per_source acc) \<and>
        shard_list_per_source st ! n =
          py_slice_to (shard_list_per_source acc ! n)
            (int (length (shard_list_per_source acc ! n)) div t * t) \<and>
        num_samples_per_source st ! n =
          py_slice_to (num_samples_per_source acc ! n)
            (int (length (shard_list_per_source acc ! n)) div t * t) \<and>
        next_shard_per_source st ! n = start ! n + int (length (shard_list_per_source st ! n))"
    using IH P by simp
  have rest: "\<forall>i\<ge>Suc n. shard_list_per_source st ! i = shard_list_per_source acc ! i \<and>
        num_samples_per_source st ! i = num_samples_per_source acc ! i \<and>
        next_shard_per_source st ! i = next_shard_per_source acc ! i"
    using IH P by simp
  show ?case
    using len old new rest by (simp add: less_Suc_eq)
qed


lemma add_shard_Inr:
  assumes "add_shard M st i = Inr st'"
  shows "i < length M \<and> i < length (next_shard_per_source st) \<and>
     i < length (shard_list_per_source st) \<and> i < length (num_samples_per_source st) \<and>
     (\<exists>m c. py_index (M ! i) (next_shard_per_source st ! i) = Inr m \<and>
        sequences_or_chunks m = Inr c \<and>
        st' = st\<lparr>shard_list_per_source := (shard_list_per_source st)
                    [i := shard_list_per_source st ! i @ [shard m]],
                 num_samples_per_source := (num_samples_per_source st)
                    [i := num_samples_per_source st ! i @ [c]],
                 next_shard_per_source := (next_shard_per_source st)
                    [i := next_shard_per_source st ! i + 1]\<rparr>)"
  using assms
  by (auto simp: add_shard_def py_index_nat ebind_eq_Inr split: if_splits)

lemma add_round_fold:
  "efold (add_shard M) [0..<n] st = Inr st' \<Longrightarrow>
     length (shard_list_per_source st') = length (shard_list_per_source st) \<and>
     length (num_samples_per_source st') = length (num_samples_per_source st) \<and>
     length (next_shard_per_source st') = length (next_shard_per_source st) \<and>
     (\<forall>i<n. i < length M \<and> i < length (next_shard_per_source st) \<and>
        i < length (shard_list_per_source st) \<and> i < length (num_samples_per_source st) \<and>
        (\<exists>m c. py_index (M ! i) (next_shard_per_source st ! i) = Inr m \<and>
           sequences_or_chunks m = Inr c \<and>
           shard_list_per_source st' ! i = shard_list_per_source st ! i @ [shard m] \<and>
           num_samples_per_source st' ! i = num_samples_per_source st ! i @ [c] \<and>
           next_shard_per_source st' ! i = next_shard_per_source st ! i + 1)) \<and>
     (\<forall>i\<ge>n. shard_list_per_source st' ! i = shard_list_per_source st ! i \<and>
        num_samples_per_source st' ! i = num_samples_per_source st ! i \<and>
        next_shard_per_source st' ! i = next_shard_per_source st ! i)"
proof (induction n arbitrary: st')
  case 0
  then show ?case by simp
next
  case (Suc n)
  from Suc.prems obtain mid where mid: "efold (add_shard M) [0..<n] st = Inr mid"
    and step: "add_shard M mid n = Inr st'"
    unfolding efold_upt_Suc by (auto simp: ebind_eq_Inr)
  note IH = Suc.IH [OF mid]
  from add_shard_Inr [OF step] obtain m c where
    P: "n < length M" "n < length (next_shard_per_source mid)"
       "n < length (shard_list_per_source mid)" "n < length (num_samples_per_source mid)"
       "py_index (M ! n) (next_shard_per_source mid ! n) = Inr m"
       "sequences_or_chunks m = Inr c"
       "st' = mid\<lparr>shard_list_per_source := (shard_list_per_source mid)
                    [n := shard_list_per_source mid ! n @ [shard m]],
                 num_samples_per_source := (num_samples_per_source mid)
                    [n := num_samples_per_source mid ! n @ [c]],
                 next_shard_per_source := (next_shard_per_source mid)
                    [n := next_shard_per_source mid ! n + 1]\<rparr>"
    by blast
  have len: "length (shard_list_per_source st') = length (shard_list_per_source st)"
    "length (num_samples_per_source st') = length (num_samples_per_source st)"
    "length (next_shard_per_source st') = length (next_shard_per_source st)"
    using IH P(7) by simp_all
  have old: "\<forall>i<n. i < length M \<and> i < length (next_shard_per_source st) \<and>
        i < length (shard_list_per_source st) \<and> i < length (num_samples_per_source st) \<and>
        (\<exists>m c. py_index (M ! i) (next_shard_per_source st ! i) = Inr m \<and>
           sequences_or_chunks m = Inr c \<and>
           shard_list_per_source st' ! i = shard_list_per_source st ! i @ [shard m] \<and>
           num_samples_per_source st' ! i = num_samples_per_source st ! i @ [c] \<and>
           next_shard_per_source st' ! i = next_shard_per_source st ! i + 1)"
    using IH P(7) by (simp add: nth_list_update)
  have new: "n < length M \<and> n < length (next_shard_per_source st) \<and>
        n < length (shard_list_per_source st) \<and> n < length (num_samples_per_source st) \<and>
        (\<exists>m c. py_index (M ! n) (next_shard_per_source st ! n) = Inr m \<and>
           sequences_or_chunks m = Inr c \<and>
           shard_list_per_source st' ! n = shard_list_per_source st ! n @ [shard m] \<and>
           num_samples_per_source st' ! n = num_samples_per_source st ! n @ [c] \<and>
           next_shard_per_source st' ! n = next_shard_per_source st ! n + 1)"
    using IH P by simp
  have rest: "\<forall>i\<ge>Suc n. shard_list_per_source st' ! i = shard_list_per_source st ! i \<and>
        num_samples_per_source st' ! i = num_samples_per_source st ! i \<and>
        next_shard_per_source st' ! i = next_shard_per_source st ! i"
    using IH P(7) by simp
  show ?case
    using len old new rest by (simp add: less_Suc_eq)
qed


lemma add_round_lengths:
  assumes "add_round M n st = Inr st'"
  shows "length (shard_list_per_source st') = length (shard_list_per_source st)"
    and "length (num_samples_per_source st') = length (num_samples_per_source st)"
    and "length (next_shard_per_source st') = length (next_shard_per_source st)"
  using add_round_fold [OF assms [unfolded add_round_def]] by simp_all

lemma add_round_nth:
  assumes "add_round M n st = Inr st'" and "i < n"
  shows "i < length M \<and> i < length (next_shard_per_source st) \<and>
        i < length (shard_list_per_source st) \<and> i < length (num_samples_per_source st) \<and>
        (\<exists>m c. py_index (M ! i) (next_shard_per_source st ! i) = Inr m \<and>
           sequences_or_chunks m = Inr c \<and>
           shard_list_per_source st' ! i = shard_list_per_source st ! i @ [shard m] \<and>
           num_samples_per_source st' ! i = num_samples_per_source st ! i @ [c] \<and>
           next_shard_per_source st' ! i = next_shard_per_source st ! i + 1)"
  using add_round_fold [OF assms(1) [unfolded add_round_def], THEN conjunct2, THEN conjunct2,
      THEN conjunct2, THEN conjunct1, rule_format, OF assms(2)] .

lemma acc_inv_initial: "acc_inv start n (initial_state start n)"
  by (simp add: acc_inv_def initial_state_def)

lemma acc_inv_add_round:
  assumes "acc_inv start n st" and "add_round M n st = Inr st'"
  shows "acc_inv start n st'"
proof -
  note L = add_round_lengths [OF assms(2)]
  show ?thesis
    unfolding acc_inv_def
  proof (intro conjI allI impI)
    show "length (shard_list_per_source st') = n" using L assms(1) by (simp add: acc_inv_def)
    show "length (num_samples_per_source st') = n" using L assms(1) by (simp add: acc_inv_def)
    show "length (next_shard_per_source st') = length start"
      using L assms(1) by (simp add: acc_inv_def)
  next
    fix i assume i: "i < n"
    from add_round_nth [OF assms(2) i] obtain m :: entry and c where
      "shard_list_per_source st' ! i = shard_list_per_source st ! i @ [shard m]"
      "num_samples_per_source st' ! i = num_samples_per_source st ! i @ [c]"
      "next_shard_per_source st' ! i = next_shard_per_source st ! i + 1"
      by blast
    moreover from assms(1) i have
      "length (num_samples_per_source st ! i) = length (shard_list_per_source st ! i)"
      "next_shard_per_source st ! i = start ! i + int (length (shard_list_per_source st ! i))"
      by (simp_all add: acc_inv_def)
    ultimately show "length (num_samples_per_source st' ! i) = length (shard_list_per_source st' ! i)"
      and "next_shard_per_source st' ! i = start ! i + int (length (shard_list_per_source st' ! i))"
      by simp_all
  qed
qed


lemma while_rule:
  assumes run: "single_epoch_while M needed t n st = Some r"
    and cond_err: "\<And>st e. need_more needed t st = Inl e \<Longrightarrow> P st (Inl e)"
    and stop: "\<And>st. need_more needed t st = Inr False \<Longrightarrow> P st (Inr st)"
    and round_err: "\<And>st e. need_more needed t st = Inr True \<Longrightarrow>
                      add_round M n st = Inl e \<Longrightarrow> P st (Inl e)"
    and round_ok: "\<And>st st' r. need_more needed t st = Inr True \<Longrightarrow>
                      add_round M n st = Inr st' \<Longrightarrow> P st' r \<Longrightarrow> P st r"
  shows "P st r"
proof -
  have "M' = M \<and> needed' = needed \<and> t' = t \<and> n' = n \<longrightarrow> P st r"
    if "single_epoch_while M' needed' t' n' st = Some r" for M' needed' t' n'
  proof (rule single_epoch_while.raw_induct
      [where P = "\<lambda>M' needed' t' n' st r.
                    M' = M \<and> needed' = needed \<and> t' = t \<and> n' = n \<longrightarrow> P st r", OF _ that])
    fix w M' needed' t' n' st r
    assume IH: "\<And>M' needed' t' n' st r. w M' needed' t' n' st = Some r \<Longrightarrow>
                 M' = M \<and> needed' = needed \<and> t' = t \<and> n' = n \<longrightarrow> P st r"
      and eq: "(case need_more needed' t' st of
                  Inl e \<Rightarrow> Some (Inl e)
                | Inr b \<Rightarrow>
                    if b then (case add_round M' n' st of
                                 Inl e \<Rightarrow> Some (Inl e)
                               | Inr st' \<Rightarrow> w M' needed' t' n' st')
                    else Some (Inr st)) = Some r"
    show "M' = M \<and> needed' = needed \<and> t' = t \<and> n' = n \<longrightarrow> P st r"
    proof
      assume same: "M' = M \<and> needed' = needed \<and> t' = t \<and> n' = n"
      show "P st r"
      proof (cases "need_more needed t st")
        case (Inl e)
        with eq same have "r = Inl e" by simp
        with cond_err [OF Inl] show ?thesis by simp
      next
        case (Inr b)
        show ?thesis
        proof (cases b)
          case False
          with Inr eq same have r: "r = Inr st" by simp
          from Inr False have nm: "need_more needed t st = Inr False" by simp
          from stop [OF nm] r show ?thesis by simp
        next
          case True
          show ?thesis
          proof (cases "add_round M n st")
            case (Inl e)
            with True Inr eq same have r: "r = Inl e" by simp
            from Inr True have nm: "need_more needed t st = Inr True" by simp
            from round_err [OF nm Inl] r show ?thesis by simp
          next
            case st': (Inr st')
            with True Inr eq same have "w M needed t n st' = Some r" by simp
            from IH [OF this] have P': "P st' r" by simp
            from Inr True have nm: "need_more needed t st = Inr True" by simp
            from round_ok [OF nm st' P'] show ?thesis .
          qed
        qed
      qed
    qed
  qed
  from this [OF run] show ?thesis by simp
qed

lemma while_acc_inv:
  assumes "single_epoch_while M needed t n st = Some (Inr acc)" and "acc_inv start n st"
  shows "acc_inv start n acc"
proof -
  have "\<forall>acc. r = Inr acc \<longrightarrow> acc_inv start n st \<longrightarrow> acc_inv start n acc"
    if "single_epoch_while M needed t n st = Some r" for r
    using that
    by (rule while_rule) (auto intro: acc_inv_add_round)
  with assms show ?thesis by blast
qed


lemma emap_enumerate_Inr:
  "emap (\<lambda>(i, x). g i x) (enumerate k xs) = Inr ys \<Longrightarrow>
     length ys = length xs \<and> (\<forall>i<length xs. g (k + i) (xs ! i) = Inr (ys ! i))"
proof (induction xs arbitrary: k ys)
  case Nil
  then show ?case by simp
next
  case (Cons x xs)
  from Cons.prems obtain y ys' where y: "g k x = Inr y"
    and ys': "emap (\<lambda>(i, x). g i x) (enumerate (Suc k) xs) = Inr ys'" and ys: "ys = y # ys'"
    by (auto simp: ebind_eq_Inr)
  from Cons.IH [OF ys'] y ys show ?case
    by (auto simp: nth_Cons split: nat.splits)
qed

lemma shard_strings_Inr:
  assumes "shard_strings paths sls = Inr strs"
  shows "length strs = length paths"
    and "i < length paths \<Longrightarrow> i < length sls \<and> strs ! i = shard_string (paths ! i) (sls ! i)"
proof -
  let ?g = "\<lambda>i source_path. ebind (py_index sls (int i)) (\<lambda>sl. Inr (shard_string source_path sl))"
  from assms have "emap (\<lambda>(i, x). ?g i x) (enumerate 0 paths) = Inr strs"
    by (simp add: shard_strings_def)
  from emap_enumerate_Inr [OF this]
  have L: "length strs = length paths"
    and N: "\<forall>i<length paths. ?g (0 + i) (paths ! i) = Inr (strs ! i)" by simp_all
  show "length strs = length paths" by (rule L)
  show "i < length sls \<and> strs ! i = shard_string (paths ! i) (sls ! i)" if "i < length paths"
    using N that by (auto simp: py_index_nat ebind_eq_Inr split: if_splits)
qed

lemma single_epoch_string_normal:
  assumes "single_epoch_string gmf num_samples start paths weights nw ws =
             Some (Inr (strs, samples, nxt))"
  obtains needed M acc st where
    "single_epoch_setup gmf num_samples paths weights = Inr (needed, M)"
    "single_epoch_while M needed (nw * ws) (length paths) (initial_state start (length paths)) =
       Some (Inr acc)"
    "single_epoch_accumulated gmf num_samples start paths weights nw ws = Some (Inr acc)"
    "efold (put_back (nw * ws) start) [0..<length paths] acc = Inr st"
    "single_epoch_committed gmf num_samples start paths weights nw ws = Some (Inr st)"
    "shard_strings paths (shard_list_per_source st) = Inr strs"
    "samples = map sum_list (num_samples_per_source st)"
    "nxt = next_shard_per_source st"
proof -
  from assms obtain st where
    c: "single_epoch_committed gmf num_samples start paths weights nw ws = Some (Inr st)"
    and s: "shard_strings paths (shard_list_per_source st) = Inr strs"
    and r: "samples = map sum_list (num_samples_per_source st)" "nxt = next_shard_per_source st"
    by (auto simp: single_epoch_string_def ebind_eq_Inr split: option.splits sum.splits)
  from c obtain acc where
    a: "single_epoch_accumulated gmf num_samples start paths weights nw ws = Some (Inr acc)"
    and p: "efold (put_back (nw * ws) start) [0..<length paths] acc = Inr st"
    by (auto simp: single_epoch_committed_def split: option.splits sum.splits)
  from a obtain needed M where
    u: "single_epoch_setup gmf num_samples paths weights = Inr (needed, M)"
    and w: "single_epoch_while M needed (nw * ws) (length paths)
              (initial_state start (length paths)) = Some (Inr acc)"
    by (auto simp: single_epoch_accumulated_def split: sum.splits prod.splits)
  from u w a p c s r show ?thesis by (rule that)
qed

subsection \<open>The cursor that is committed\<close>

lemma demo_run:
  "single_epoch_string demo_reader 250 [0] [''data/manifest.jsonl''] None 1 2 =
     Some (Inr ([''data/{shard_0,shard_1}.tar''], [200], [2]))"
  by code_simp

lemma demo_acc:
   "single_epoch_accumulated demo_reader 250 [0] [''data/manifest.jsonl''] None 1 2 =
     Some (Inr \<lparr>shard_list_per_source = [[''shard_0'', ''shard_1'', ''shard_2'']],
                num_samples_per_source = [[100, 100, 100]],
                next_shard_per_source = [3]\<rparr>)"
  by code_simp

lemma demo_com:
   "single_epoch_committed demo_reader 250 [0] [''data/manifest.jsonl''] None 1 2 =
     Some (Inr \<lparr>shard_list_per_source = [[''shard_0'', ''shard_1'']],
                num_samples_per_source = [[100, 100]],
                next_shard_per_source = [2]\<rparr>)"
  by code_simp

text \<open>
  C1. When \<open>_single_epoch_string\<close> returns normally, the cursor it returns for a source
  is the starting cursor plus the number of shards that were committed for that source (the
  accumulated list cut by \<open>put_back\<close>, the list that the shard string names), while
  the cursor of the accumulation loop had advanced by the number of accumulated shards: the
  shards past the cut are put back. The example of the specification (ten shards of 100
  samples, two workers, 250 samples: three shards accumulated, two committed with 200
  samples, cursor 2) is the instance that follows the theorem.
\<close>

theorem cursor_commit:
  assumes "single_epoch_string gmf num_samples start paths weights nw ws =
             Some (Inr (strs, samples, nxt))"
    and "i < length paths"
  shows "\<exists>acc st.
      single_epoch_accumulated gmf num_samples start paths weights nw ws = Some (Inr acc) \<and>
      single_epoch_committed gmf num_samples start paths weights nw ws = Some (Inr st) \<and>
      shard_list_per_source st ! i =
        py_slice_to (shard_list_per_source acc ! i)
          (int (length (shard_list_per_source acc ! i)) div (nw * ws) * (nw * ws)) \<and>
      strs ! i = shard_string (paths ! i) (shard_list_per_source st ! i) \<and>
      nxt ! i = start ! i + int (length (shard_list_per_source st ! i)) \<and>
      next_shard_per_source acc ! i = start ! i + int (length (shard_list_per_source acc ! i))"
proof -
  from assms(1) obtain needed M acc st where
    w: "single_epoch_while M needed (nw * ws) (length paths)
          (initial_state start (length paths)) = Some (Inr acc)"
    and a: "single_epoch_accumulated gmf num_samples start paths weights nw ws = Some (Inr acc)"
    and p: "efold (put_back (nw * ws) start) [0..<length paths] acc = Inr st"
    and c: "single_epoch_committed gmf num_samples start paths weights nw ws = Some (Inr st)"
    and s: "shard_strings paths (shard_list_per_source st) = Inr strs"
    and n: "nxt = next_shard_per_source st"
    by (rule single_epoch_string_normal)
  from while_acc_inv [OF w acc_inv_initial] assms(2)
  have inv: "next_shard_per_source acc ! i = start ! i + int (length (shard_list_per_source acc ! i))"
    by (simp add: acc_inv_def)
  from put_back_fold [OF p, THEN conjunct2, THEN conjunct2, THEN conjunct2, THEN conjunct1,
      rule_format, OF assms(2)]
  have pb: "shard_list_per_source st ! i =
        py_slice_to (shard_list_per_source acc ! i)
          (int (length (shard_list_per_source acc ! i)) div (nw * ws) * (nw * ws))"
    "next_shard_per_source st ! i = start ! i + int (length (shard_list_per_source st ! i))"
    by simp_all
  from shard_strings_Inr(2) [OF s assms(2)]
  have str: "strs ! i = shard_string (paths ! i) (shard_list_per_source st ! i)" by simp
  from a c pb str inv n show ?thesis by blast
qed

theorem cursor_commit_witness:
  "single_epoch_string demo_reader 250 [0] [''data/manifest.jsonl''] None 1 2 =
     Some (Inr ([''data/{shard_0,shard_1}.tar''], [200], [2])) \<and>
   single_epoch_accumulated demo_reader 250 [0] [''data/manifest.jsonl''] None 1 2 =
     Some (Inr \<lparr>shard_list_per_source = [[''shard_0'', ''shard_1'', ''shard_2'']],
                num_samples_per_source = [[100, 100, 100]],
                next_shard_per_source = [3]\<rparr>) \<and>
   single_epoch_committed demo_reader 250 [0] [''data/manifest.jsonl''] None 1 2 =
     Some (Inr \<lparr>shard_list_per_source = [[''shard_0'', ''shard_1'']],
                num_samples_per_source = [[100, 100]],
                next_shard_per_source = [2]\<rparr>) \<and>
   [2 :: int] ! 0 = [0] ! 0 + int (length [''shard_0'', ''shard_1''])"
proof -
  have i: "0 < length [''data/manifest.jsonl'']" by simp
  from cursor_commit [OF demo_run i] obtain st where
    c: "single_epoch_committed demo_reader 250 [0] [''data/manifest.jsonl''] None 1 2 =
          Some (Inr st)"
    and e: "[2 :: int] ! 0 = [0] ! 0 + int (length (shard_list_per_source st ! 0))"
    by blast
  from c demo_com have "shard_list_per_source st = [[''shard_0'', ''shard_1'']]" by auto
  with e have "[2 :: int] ! 0 = [0] ! 0 + int (length [''shard_0'', ''shard_1''])" by simp
  with demo_run demo_acc demo_com show ?thesis by blast
qed

subsection \<open>The committed list is a multiple of the workers\<close>

lemma slice_multiple:
  assumes "0 < t"
  shows "py_slice_to xs (int (length xs) div t * t) = take (nat (int (length xs) div t * t)) xs"
    and "int (length (py_slice_to xs (int (length xs) div t * t))) = int (length xs) div t * t"
    and "int (length xs) div t * t \<le> int (length xs)"
    and "0 \<le> int (length xs) div t * t"
proof -
  let ?k = "int (length xs) div t * t"
  have nonneg: "0 \<le> ?k" using assms by (simp add: pos_imp_zdiv_nonneg_iff)
  have le: "?k \<le> int (length xs)"
    using assms pos_mod_sign [of t "int (length xs)"] div_mult_mod_eq [of "int (length xs)" t]
    by linarith
  show "py_slice_to xs ?k = take (nat ?k) xs" using nonneg by (simp add: py_slice_to_def)
  show "int (length (py_slice_to xs ?k)) = ?k" using nonneg le by (simp add: py_slice_to_def)
  show "?k \<le> int (length xs)" by (rule le)
  show "0 \<le> ?k" by (rule nonneg)
qed

lemma multiple_below:
  assumes "0 < (t::int)" and "t dvd m" and "m \<le> l"
  shows "m \<le> l div t * t"
proof -
  from assms(2) obtain q where q: "m = t * q" by (auto simp: dvd_def)
  with assms have "q \<le> l div t"
    by (metis mult.commute pos_imp_zdiv_nonneg_iff zdiv_mono1 nonzero_mult_div_cancel_left less_irrefl)
  with assms(1) q show ?thesis by (simp add: mult.commute)
qed

lemma put_back_nth:
  assumes "efold (put_back t start) [0..<n] acc = Inr st" and "i < n"
  shows "t \<noteq> 0"
    and "shard_list_per_source st ! i =
          py_slice_to (shard_list_per_source acc ! i)
            (int (length (shard_list_per_source acc ! i)) div t * t)"
    and "num_samples_per_source st ! i =
          py_slice_to (num_samples_per_source acc ! i)
            (int (length (shard_list_per_source acc ! i)) div t * t)"
    and "next_shard_per_source st ! i = start ! i + int (length (shard_list_per_source st ! i))"
    and "i < length (num_samples_per_source acc)"
  using put_back_fold [OF assms(1), THEN conjunct2, THEN conjunct2, THEN conjunct2,
      THEN conjunct1, rule_format, OF assms(2)] by simp_all

lemma demo_run4:
  "single_epoch_string demo_reader 450 [0] [''data/manifest.jsonl''] None 2 2 =
     Some (Inr ([''data/{shard_0,shard_1,shard_2,shard_3}.tar''], [400], [4]))"
  by code_simp

lemma demo_acc4:
  "single_epoch_accumulated demo_reader 450 [0] [''data/manifest.jsonl''] None 2 2 =
     Some (Inr \<lparr>shard_list_per_source =
                  [[''shard_0'', ''shard_1'', ''shard_2'', ''shard_3'', ''shard_4'']],
                num_samples_per_source = [[100, 100, 100, 100, 100]],
                next_shard_per_source = [5]\<rparr>)"
  by code_simp

lemma demo_com4:
  "single_epoch_committed demo_reader 450 [0] [''data/manifest.jsonl''] None 2 2 =
     Some (Inr \<lparr>shard_list_per_source = [[''shard_0'', ''shard_1'', ''shard_2'', ''shard_3'']],
                num_samples_per_source = [[100, 100, 100, 100]],
                next_shard_per_source = [4]\<rparr>)"
  by code_simp

text \<open>
  C2. When \<open>_single_epoch_string\<close> returns normally and the number of workers
  \<open>num_workers_per_gpu * world_size\<close> is not negative, the committed shard list of
  every source is a prefix of the accumulated one (nothing is padded), its length is a
  multiple of the number of workers, no longer multiple fits into the accumulated list, and
  the cursor returned is not below the starting cursor. The shard string and the number of
  samples returned are those of the committed list.
\<close>

theorem committed_multiple_of_workers:
  assumes run: "single_epoch_string gmf num_samples start paths weights nw ws =
             Some (Inr (strs, samples, nxt))"
    and i: "i < length paths"
    and pos: "0 \<le> nw * ws"
  shows "\<exists>acc st.
      single_epoch_accumulated gmf num_samples start paths weights nw ws = Some (Inr acc) \<and>
      single_epoch_committed gmf num_samples start paths weights nw ws = Some (Inr st) \<and>
      (nw * ws) dvd int (length (shard_list_per_source st ! i)) \<and>
      length (shard_list_per_source st ! i) \<le> length (shard_list_per_source acc ! i) \<and>
      (\<forall>m. (nw * ws) dvd int m \<and> m \<le> length (shard_list_per_source acc ! i)
           \<longrightarrow> m \<le> length (shard_list_per_source st ! i)) \<and>
      shard_list_per_source st ! i =
        take (length (shard_list_per_source st ! i)) (shard_list_per_source acc ! i) \<and>
      num_samples_per_source st ! i =
        take (length (shard_list_per_source st ! i)) (num_samples_per_source acc ! i) \<and>
      strs ! i = shard_string (paths ! i) (shard_list_per_source st ! i) \<and>
      samples ! i = sum_list (num_samples_per_source st ! i) \<and>
      start ! i \<le> nxt ! i"
proof -
  let ?t = "nw * ws"
  from run obtain needed M acc st where
    w: "single_epoch_while M needed ?t (length paths)
          (initial_state start (length paths)) = Some (Inr acc)"
    and a: "single_epoch_accumulated gmf num_samples start paths weights nw ws = Some (Inr acc)"
    and p: "efold (put_back ?t start) [0..<length paths] acc = Inr st"
    and c: "single_epoch_committed gmf num_samples start paths weights nw ws = Some (Inr st)"
    and s: "shard_strings paths (shard_list_per_source st) = Inr strs"
    and sm: "samples = map sum_list (num_samples_per_source st)"
    and n: "nxt = next_shard_per_source st"
    by (rule single_epoch_string_normal)
  let ?A = "shard_list_per_source acc ! i" and ?C = "shard_list_per_source st ! i"
  let ?k = "int (length ?A) div ?t * ?t"
  note pb = put_back_nth [OF p i]
  have t: "0 < ?t" by (metis pb(1) pos order_le_less)
  from while_acc_inv [OF w acc_inv_initial] i
  have same: "length (num_samples_per_source acc ! i) = length ?A"
    by (simp add: acc_inv_def)
  have C: "?C = take (nat ?k) ?A" using pb(2) slice_multiple(1) [OF t, of ?A] by simp
  have lenC: "int (length ?C) = ?k" using pb(2) slice_multiple(2) [OF t, of ?A] by simp
  have le: "?k \<le> int (length ?A)" by (rule slice_multiple(3) [OF t])
  have d: "?t dvd int (length ?C)" unfolding lenC by simp
  have l: "length ?C \<le> length ?A" using lenC le by linarith
  have mx: "\<forall>m. ?t dvd int m \<and> m \<le> length ?A \<longrightarrow> m \<le> length ?C"
  proof (intro allI impI)
    fix m assume m: "?t dvd int m \<and> m \<le> length ?A"
    then have "int m \<le> ?k" using multiple_below [OF t, of "int m" "int (length ?A)"] by simp
    with lenC show "m \<le> length ?C" by linarith
  qed
  have tk: "?C = take (length ?C) ?A" using C lenC by (metis nat_int)
  have tn: "num_samples_per_source st ! i =
        take (length ?C) (num_samples_per_source acc ! i)"
  proof -
    have "num_samples_per_source st ! i =
        py_slice_to (num_samples_per_source acc ! i)
          (int (length (num_samples_per_source acc ! i)) div ?t * ?t)"
      using pb(3) same by simp
    also have "\<dots> = take (nat ?k) (num_samples_per_source acc ! i)"
      using slice_multiple(1) [OF t, of "num_samples_per_source acc ! i"] same by simp
    finally show ?thesis using lenC by (metis nat_int)
  qed
  from shard_strings_Inr(2) [OF s i]
  have str: "strs ! i = shard_string (paths ! i) ?C" by simp
  from put_back_fold [OF p] i pb(5) have "i < length (num_samples_per_source st)" by simp
  with sm have sum: "samples ! i = sum_list (num_samples_per_source st ! i)" by simp
  from pb(4) n have cur: "start ! i \<le> nxt ! i" by simp
  from a c d l mx tk tn str sum cur show ?thesis by blast
qed

theorem committed_multiple_of_workers_witness:
  "single_epoch_string demo_reader 450 [0] [''data/manifest.jsonl''] None 2 2 =
     Some (Inr ([''data/{shard_0,shard_1,shard_2,shard_3}.tar''], [400], [4])) \<and>
   single_epoch_accumulated demo_reader 450 [0] [''data/manifest.jsonl''] None 2 2 =
     Some (Inr \<lparr>shard_list_per_source =
                  [[''shard_0'', ''shard_1'', ''shard_2'', ''shard_3'', ''shard_4'']],
                num_samples_per_source = [[100, 100, 100, 100, 100]],
                next_shard_per_source = [5]\<rparr>) \<and>
   single_epoch_committed demo_reader 450 [0] [''data/manifest.jsonl''] None 2 2 =
     Some (Inr \<lparr>shard_list_per_source = [[''shard_0'', ''shard_1'', ''shard_2'', ''shard_3'']],
                num_samples_per_source = [[100, 100, 100, 100]],
                next_shard_per_source = [4]\<rparr>) \<and>
   (2 * 2 :: int) dvd int (length [''shard_0'', ''shard_1'', ''shard_2'', ''shard_3'']) \<and>
   [0 :: int] ! 0 \<le> [4] ! 0"
proof -
  have i: "0 < length [''data/manifest.jsonl'']" by simp
  have pos: "(0 :: int) \<le> 2 * 2" by simp
  from committed_multiple_of_workers [OF demo_run4 i pos] obtain st where
    c: "single_epoch_committed demo_reader 450 [0] [''data/manifest.jsonl''] None 2 2 =
          Some (Inr st)"
    and d: "(2 * 2 :: int) dvd int (length (shard_list_per_source st ! 0))"
    and e: "[0 :: int] ! 0 \<le> [4] ! 0"
    by blast
  from c demo_com4 have
    "shard_list_per_source st = [[''shard_0'', ''shard_1'', ''shard_2'', ''shard_3'']]" by auto
  with d have "(2 * 2 :: int) dvd int (length [''shard_0'', ''shard_1'', ''shard_2'', ''shard_3''])"
    by simp
  with e demo_run4 demo_acc4 demo_com4 show ?thesis by blast
qed

subsection \<open>The accumulation loop\<close>

















subsection \<open>Exhaustion of a manifest\<close>


















subsection \<open>The allocator always returns\<close>

text \<open>
  The accumulation loop ends from every state it can be in: a round that succeeds has read
  the manifest of the first source at its cursor, which is then below the length of that
  manifest, and has moved the cursor by one. So \<open>_single_epoch_string\<close> returns a
  result or raises, for every input.
\<close>

lemma py_index_Inr_less: "py_index xs c = Inr m \<Longrightarrow> c < int (length xs)"
  by (auto simp: py_index_def split: if_splits)

lemma need_more_no_source:
  "shard_list_per_source st = [] \<Longrightarrow> num_samples_per_source st = [] \<Longrightarrow>
     need_more needed t st = Inr False"
  by (simp add: need_more_def enough_shards_def)

lemma single_epoch_while_returns:
  assumes "length (shard_list_per_source st) = n" and "length (num_samples_per_source st) = n"
  shows "\<exists>r. single_epoch_while M needed t n st = Some r"
  using assms
proof (induction "nat (int (length (M ! 0)) - next_shard_per_source st ! 0)" arbitrary: st
    rule: less_induct)
  case less
  show ?case
  proof (cases "need_more needed t st")
    case (Inl e)
    then show ?thesis by (subst single_epoch_while.simps) simp
  next
    case (Inr b)
    show ?thesis
    proof (cases b)
      case False
      with Inr show ?thesis by (subst single_epoch_while.simps) simp
    next
      case True
      show ?thesis
      proof (cases "add_round M n st")
        case (Inl e)
        with Inr True show ?thesis by (subst single_epoch_while.simps) simp
      next
        case st': (Inr st')
        have n: "0 < n"
        proof (rule ccontr)
          assume "\<not> 0 < n"
          with less.prems have "need_more needed t st = Inr False"
            by (intro need_more_no_source) simp_all
          with Inr True show False by simp
        qed
        from add_round_nth [OF st' n] obtain m :: entry where
          m: "py_index (M ! 0) (next_shard_per_source st ! 0) = Inr m"
          and nx: "next_shard_per_source st' ! 0 = next_shard_per_source st ! 0 + 1"
          by blast
        from py_index_Inr_less [OF m] nx
        have dec: "nat (int (length (M ! 0)) - next_shard_per_source st' ! 0) <
                   nat (int (length (M ! 0)) - next_shard_per_source st ! 0)"
          by simp
        from add_round_lengths [OF st'] less.prems
        have len: "length (shard_list_per_source st') = n"
          "length (num_samples_per_source st') = n" by simp_all
        from less.hyps [OF dec len] obtain r where
          "single_epoch_while M needed t n st' = Some r" by blast
        with Inr True st' show ?thesis by (subst single_epoch_while.simps) simp
      qed
    qed
  qed
qed

lemma single_epoch_string_returns:
  "\<exists>r. single_epoch_string gmf num_samples start paths weights nw ws = Some r"
proof (cases "single_epoch_setup gmf num_samples paths weights")
  case (Inl e)
  then show ?thesis
    by (simp add: single_epoch_string_def single_epoch_committed_def
        single_epoch_accumulated_def)
next
  case (Inr p)
  obtain needed M where p: "p = (needed, M)" by (cases p)
  from single_epoch_while_returns [of "initial_state start (length paths)" "length paths"
      M needed "nw * ws"]
  obtain r where "single_epoch_while M needed (nw * ws) (length paths)
      (initial_state start (length paths)) = Some r"
    by (auto simp: initial_state_def)
  with Inr p show ?thesis
    by (cases r) (auto simp: single_epoch_string_def single_epoch_committed_def
        single_epoch_accumulated_def split: sum.splits)
qed

subsection \<open>The caller's cursors are not written to\<close>

lemma add_shard_store_keeps:
  "add_shard_store M b st i = Inr st' \<Longrightarrow> keeps h b st \<Longrightarrow> keeps h b st'"
  by (auto simp: add_shard_store_def keeps_def ebind_eq_Inr split: if_splits)

lemma put_back_store_keeps:
  "put_back_store t a b st i = Inr st' \<Longrightarrow> keeps h b st \<Longrightarrow> keeps h b st'"
  by (auto simp: put_back_store_def keeps_def ebind_eq_Inr Let_def split: if_splits)

lemma efold_keep_inv:
  assumes "\<And>s x s'. f s x = Inr s' \<Longrightarrow> P s \<Longrightarrow> P s'"
  shows "P s \<Longrightarrow> efold_keep f xs s = r \<Longrightarrow>
           (case r of Inl (e, s') \<Rightarrow> P s' | Inr s' \<Rightarrow> P s')"
proof (induction xs arbitrary: s)
  case Nil
  then show ?case by auto
next
  case (Cons x xs)
  show ?case
  proof (cases "f s x")
    case (Inl e)
    with Cons.prems show ?thesis by auto
  next
    case (Inr s1)
    from assms [OF Inr Cons.prems(1)] have "P s1" .
    from Cons.IH [OF this] Cons.prems(2) Inr show ?thesis by simp
  qed
qed

lemma while_store_keeps:
  assumes "single_epoch_while_store M needed t n b st = Some r" and "keeps h b st"
  shows "case r of Inl (e, s') \<Rightarrow> keeps h b s' | Inr s' \<Rightarrow> keeps h b s'"
proof -
  let ?Q = "\<lambda>b st r. keeps h b st \<longrightarrow> (case r of Inl (e, s') \<Rightarrow> keeps h b s' | Inr s' \<Rightarrow> keeps h b s')"
  have "?Q b st r"
  proof (rule single_epoch_while_store.raw_induct
      [where P = "\<lambda>M needed t n b st r. ?Q b st r", OF _ assms(1)])
    fix w M needed t n b st r
    assume IH: "\<And>M needed t n b st r. w M needed t n b st = Some r \<Longrightarrow> ?Q b st r"
      and eq: "(case need_more_store needed t st of
                  Inl e \<Rightarrow> Some (Inl (e, st))
                | Inr go \<Rightarrow>
                    if go then
                      (case efold_keep (add_shard_store M b) [0..<n] st of
                         Inl failed \<Rightarrow> Some (Inl failed)
                       | Inr st' \<Rightarrow> w M needed t n b st')
                    else Some (Inr st)) = Some r"
    show "?Q b st r"
    proof
      assume k: "keeps h b st"
      note R = efold_keep_inv [where f = "add_shard_store M b" and P = "keeps h b"
          and xs = "[0..<n]", OF add_shard_store_keeps k refl]
      show "case r of Inl (e, s') \<Rightarrow> keeps h b s' | Inr s' \<Rightarrow> keeps h b s'"
      proof (cases "need_more_store needed t st")
        case (Inl e)
        with eq k show ?thesis by auto
      next
        case (Inr go)
        show ?thesis
        proof (cases go)
          case False
          with Inr eq k show ?thesis by auto
        next
          case True
          show ?thesis
          proof (cases "efold_keep (add_shard_store M b) [0..<n] st")
            case (Inl failed)
            with True Inr eq have "r = Inl failed" by simp
            with R Inl show ?thesis by simp
          next
            case st': (Inr st')
            with True Inr eq have "w M needed t n b st' = Some r" by simp
            from IH [OF this] R st' show ?thesis by simp
          qed
        qed
      qed
    qed
  qed
  with assms(2) show ?thesis by simp
qed

lemma map_sum_ebind: "map_sum id g (ebind m f) = ebind m (\<lambda>x. map_sum id g (f x))"
  by (cases m) simp_all

lemma add_shard_store_sim:
  assumes "refs_ok a b start st"
  shows "add_shard M (abs_state b st) i = map_sum id (abs_state b) (add_shard_store M b st i)"
  using assms
  by (simp add: add_shard_def add_shard_store_def abs_state_def refs_ok_def map_sum_ebind)

lemma add_shard_store_refs:
  assumes "refs_ok a b start st" and "add_shard_store M b st i = Inr st'"
  shows "refs_ok a b start st'"
  using assms
  by (auto simp: add_shard_store_def refs_ok_def ebind_eq_Inr)

lemma put_back_store_sim:
  assumes "refs_ok a b start st"
  shows "put_back t start (abs_state b st) i =
           map_sum id (abs_state b) (put_back_store t a b st i)"
  using assms
  by (simp add: put_back_def put_back_store_def abs_state_def refs_ok_def map_sum_ebind Let_def
      if_distrib [of "map_sum id (abs_state b)"] cong: if_cong)

lemma put_back_store_refs:
  assumes "refs_ok a b start st" and "put_back_store t a b st i = Inr st'"
  shows "refs_ok a b start st'"
  using assms
  by (auto simp: put_back_store_def refs_ok_def ebind_eq_Inr Let_def split: if_splits)

lemma efold_keep_sim:
  assumes sim: "\<And>s x. R s \<Longrightarrow> f (g s) x = map_sum id g (f' s x)"
    and pres: "\<And>s x s'. R s \<Longrightarrow> f' s x = Inr s' \<Longrightarrow> R s'"
  shows "R s \<Longrightarrow> efold f xs (g s) =
           (case efold_keep f' xs s of Inl (e, s') \<Rightarrow> Inl e | Inr s' \<Rightarrow> Inr (g s'))"
proof (induction xs arbitrary: s)
  case Nil
  show ?case by simp
next
  case (Cons x xs)
  show ?case
  proof (cases "f' s x")
    case (Inl e)
    with sim [OF Cons.prems, of x] show ?thesis by simp
  next
    case (Inr s1)
    from pres [OF Cons.prems Inr] have "R s1" .
    from Cons.IH [OF this] sim [OF Cons.prems, of x] Inr show ?thesis by simp
  qed
qed


lemma need_more_store_sim: "need_more_store needed t st = need_more needed t (abs_state b st)"
  by (simp add: need_more_store_def need_more_def abs_state_def)

lemma add_round_store_sim:
  assumes "refs_ok a b start st"
  shows "add_round M n (abs_state b st) =
           abs_result b (efold_keep (add_shard_store M b) [0..<n] st)"
    and "efold_keep (add_shard_store M b) [0..<n] st = Inr st' \<Longrightarrow> refs_ok a b start st'"
proof -
  show "add_round M n (abs_state b st) =
           abs_result b (efold_keep (add_shard_store M b) [0..<n] st)"
    unfolding add_round_def abs_result_def
    by (rule efold_keep_sim [where R = "refs_ok a b start"])
      (simp_all add: add_shard_store_sim add_shard_store_refs assms)
  show "refs_ok a b start st'" if "efold_keep (add_shard_store M b) [0..<n] st = Inr st'"
    using efold_keep_inv [where f = "add_shard_store M b" and P = "refs_ok a b start"
        and xs = "[0..<n]", OF add_shard_store_refs assms that] by simp
qed

lemma while_store_sim:
  assumes "single_epoch_while_store M needed t n b st = Some r" and "refs_ok a b start st"
  shows "single_epoch_while M needed t n (abs_state b st) = Some (abs_result b r) \<and>
         (\<forall>s. r = Inr s \<longrightarrow> refs_ok a b start s)"
proof -
  let ?Q = "\<lambda>M needed t n b st r. refs_ok a b start st \<longrightarrow>
      single_epoch_while M needed t n (abs_state b st) = Some (abs_result b r) \<and>
      (\<forall>s. r = Inr s \<longrightarrow> refs_ok a b start s)"
  have "?Q M needed t n b st r"
  proof (rule single_epoch_while_store.raw_induct [where P = ?Q, OF _ assms(1)])
    fix w M needed t n b st r
    assume IH: "\<And>M needed t n b st r. w M needed t n b st = Some r \<Longrightarrow> ?Q M needed t n b st r"
      and eq: "(case need_more_store needed t st of
                  Inl e \<Rightarrow> Some (Inl (e, st))
                | Inr go \<Rightarrow>
                    if go then
                      (case efold_keep (add_shard_store M b) [0..<n] st of
                         Inl failed \<Rightarrow> Some (Inl failed)
                       | Inr st' \<Rightarrow> w M needed t n b st')
                    else Some (Inr st)) = Some r"
    show "?Q M needed t n b st r"
    proof
      assume ok: "refs_ok a b start st"
      note nm = need_more_store_sim [of needed t st b]
      note ar = add_round_store_sim [OF ok, of M n]
      show "single_epoch_while M needed t n (abs_state b st) = Some (abs_result b r) \<and>
            (\<forall>s. r = Inr s \<longrightarrow> refs_ok a b start s)"
      proof (cases "need_more_store needed t st")
        case (Inl e)
        with eq have "r = Inl (e, st)" by simp
        with Inl nm show ?thesis
          by (subst single_epoch_while.simps) (simp add: abs_result_def)
      next
        case (Inr go)
        show ?thesis
        proof (cases go)
          case False
          with Inr eq have "r = Inr st" by simp
          with Inr False nm ok show ?thesis
            by (subst single_epoch_while.simps) (simp add: abs_result_def)
        next
          case True
          show ?thesis
          proof (cases "efold_keep (add_shard_store M b) [0..<n] st")
            case (Inl failed)
            with True Inr eq have "r = Inl failed" by simp
            with Inl Inr True nm ar(1) show ?thesis
              by (subst single_epoch_while.simps) (simp add: abs_result_def split: prod.splits)
          next
            case st': (Inr st')
            with True Inr eq have "w M needed t n b st' = Some r" by simp
            from IH [OF this] ar(2) [OF st']
            have "single_epoch_while M needed t n (abs_state b st') = Some (abs_result b r) \<and>
                  (\<forall>s. r = Inr s \<longrightarrow> refs_ok a b start s)" by simp
            moreover have "single_epoch_while M needed t n (abs_state b st) =
                  single_epoch_while M needed t n (abs_state b st')"
              using Inr True nm ar(1) st'
              by (subst single_epoch_while.simps) (simp add: abs_result_def)
            ultimately show ?thesis by simp
          qed
        qed
      qed
    qed
  qed
  with assms(2) show ?thesis by simp
qed

lemma put_back_all_store_sim:
  assumes "refs_ok a b start st"
  shows "efold (put_back t start) [0..<n] (abs_state b st) =
           abs_result b (efold_keep (put_back_store t a b) [0..<n] st)"
  unfolding abs_result_def
  by (rule efold_keep_sim [where R = "refs_ok a b start"])
    (simp_all add: put_back_store_sim put_back_store_refs assms)

text \<open>
  The allocator on the store computes what the allocator on values computes from the
  content of the caller's list; the cursors returned are the content of the new object.
\<close>

lemma store_refines:
  assumes run: "single_epoch_string_store gmf num_samples a paths weights nw ws h = Some (r, h')"
    and a: "a < length h"
  shows "single_epoch_string gmf num_samples (h ! a) paths weights nw ws =
           Some (case r of Inl e \<Rightarrow> Inl e
                 | Inr (strs, samples, b) \<Rightarrow> Inr (strs, samples, h' ! b))"
proof (cases "single_epoch_setup gmf num_samples paths weights")
  case (Inl e)
  with run show ?thesis
    by (auto simp: single_epoch_string_store_def single_epoch_string_def
        single_epoch_committed_def single_epoch_accumulated_def)
next
  case (Inr p)
  then obtain needed M where p: "single_epoch_setup gmf num_samples paths weights = Inr (needed, M)"
    by (cases p) simp
  let ?b = "length h" and ?n = "length paths" and ?t = "nw * ws"
  let ?init = "\<lparr>shard_lists = replicate ?n [], sample_lists = replicate ?n [],
                objects = h @ [h ! a]\<rparr>"
  have ok0: "refs_ok a ?b (h ! a) ?init" using a by (simp add: refs_ok_def nth_append)
  have abs0: "abs_state ?b ?init = initial_state (h ! a) ?n"
    by (simp add: abs_state_def initial_state_def)
  show ?thesis
  proof (cases "single_epoch_while_store M needed ?t ?n ?b ?init")
    case None
    with run p show ?thesis by (simp add: single_epoch_string_store_def deepcopy_def)
  next
    case (Some w)
    from while_store_sim [OF Some ok0] abs0
    have W: "single_epoch_while M needed ?t ?n (initial_state (h ! a) ?n) =
               Some (abs_result ?b w)"
      and okw: "\<forall>s. w = Inr s \<longrightarrow> refs_ok a ?b (h ! a) s" by simp_all
    show ?thesis
    proof (cases w)
      case (Inl f)
      with run p Some W show ?thesis
        by (auto simp: single_epoch_string_store_def deepcopy_def single_epoch_string_def
            single_epoch_committed_def single_epoch_accumulated_def abs_result_def 
            split: prod.splits)
    next
      case (Inr acc)
      with okw have oka: "refs_ok a ?b (h ! a) acc" by simp
      note PB = put_back_all_store_sim [OF oka, of ?t ?n]
      from Inr W have W': "single_epoch_while M needed ?t ?n (initial_state (h ! a) ?n) =
               Some (Inr (abs_state ?b acc))" by (simp add: abs_result_def)
      show ?thesis
      proof (cases "efold_keep (put_back_store ?t a ?b) [0..<?n] acc")
        case f: (Inl f)
        with run p Some Inr PB W' show ?thesis
          by (auto simp: single_epoch_string_store_def deepcopy_def single_epoch_string_def
            single_epoch_committed_def single_epoch_accumulated_def abs_result_def 
            split: prod.splits)
      next
        case st: (Inr st)
        with run p Some Inr PB W' show ?thesis
          by (auto simp: single_epoch_string_store_def deepcopy_def single_epoch_string_def
            single_epoch_committed_def single_epoch_accumulated_def abs_result_def abs_state_def
            split: prod.splits sum.splits)
      qed
    qed
  qed
qed

text \<open>
  C9. \<open>_single_epoch_string\<close> does not write to the list that
  \<open>starting_shard_per_source\<close> refers to: whatever the call returns or raises, every
  object that was in the store before the call has the content it had, the caller's list
  among them; the cursors returned are a new object. The instance after the theorem is a
  call that raises the exhaustion error in its fourth round: the copy has advanced to 3,
  the caller's list is still \<open>[0]\<close>.
\<close>

theorem arguments_not_mutated:
  assumes "single_epoch_string_store gmf num_samples a paths weights nw ws h = Some (r, h')"
    and "a < length h"
  shows "take (length h) h' = h \<and> h' ! a = h ! a \<and>
     (\<forall>strs samples b. r = Inr (strs, samples, b) \<longrightarrow> b = length h \<and> b \<noteq> a \<and> b < length h')"
proof -
  have main: "take (length h) h' = h \<and>
     (\<forall>strs samples b. r = Inr (strs, samples, b) \<longrightarrow> b = length h \<and> b < length h')"
  proof (cases "single_epoch_setup gmf num_samples paths weights")
    case (Inl e)
    with assms(1) show ?thesis by (auto simp: single_epoch_string_store_def)
  next
    case (Inr p)
    then obtain needed M where p: "single_epoch_setup gmf num_samples paths weights = Inr (needed, M)"
      by (cases p) simp
    let ?b = "length h" and ?n = "length paths" and ?t = "nw * ws"
    let ?init = "\<lparr>shard_lists = replicate ?n [], sample_lists = replicate ?n [],
                  objects = h @ [h ! a]\<rparr>"
    have k0: "keeps h ?b ?init" by (simp add: keeps_def)
    have len: "keeps h ?b s \<Longrightarrow> take (length h) (objects s) = h" for s
      by (simp add: keeps_def)
    show ?thesis
    proof (cases "single_epoch_while_store M needed ?t ?n ?b ?init")
      case None
      with assms(1) p show ?thesis by (simp add: single_epoch_string_store_def deepcopy_def)
    next
      case (Some w)
      note W = while_store_keeps [OF Some k0]
      show ?thesis
      proof (cases w)
        case (Inl f)
        with assms(1) p Some W show ?thesis
          by (auto simp: single_epoch_string_store_def deepcopy_def keeps_def split: prod.splits)
      next
        case (Inr acc)
        with W have ka: "keeps h ?b acc" by simp
        note PB = efold_keep_inv [where f = "put_back_store ?t a ?b" and P = "keeps h ?b"
          and xs = "[0..<?n]", OF put_back_store_keeps ka refl]
        show ?thesis
        proof (cases "efold_keep (put_back_store ?t a ?b) [0..<?n] acc")
          case f: (Inl f)
          with assms(1) p Some Inr PB show ?thesis
            by (auto simp: single_epoch_string_store_def deepcopy_def keeps_def split: prod.splits)
        next
          case st: (Inr st)
          with PB have ks: "keeps h ?b st" by simp
          then have lt: "length h < length (objects st)" by (simp add: keeps_def)
          from assms(1) p Some Inr st ks lt show ?thesis
            by (auto simp: single_epoch_string_store_def deepcopy_def keeps_def
                split: prod.splits sum.splits)
        qed
      qed
    qed
  qed
  with assms(2) show ?thesis
    by (metis nth_take less_irrefl)
qed

lemma short_store_run:
  "single_epoch_string_store short_reader 350 0 [''data/short.jsonl''] None 1 1 [[0]] =
     Some (Inl IndexError, [[0], [3]])"
  by code_simp

theorem arguments_not_mutated_witness:
  "single_epoch_string_store short_reader 350 0 [''data/short.jsonl''] None 1 1 [[0]] =
     Some (Inl IndexError, [[0], [3]]) \<and>
   take (length [[0 :: int]]) [[0], [3]] = [[0 :: int]] \<and>
   [[0], [3]] ! 0 = [[0 :: int]] ! 0"
proof -
  have a: "0 < length [[0 :: int]]" by simp
  from arguments_not_mutated [OF short_store_run a] short_store_run
  show ?thesis by blast
qed

subsection \<open>A wrong number of weights\<close>

lemma mismatch_run:
  "single_epoch_string demo_reader 250 [0] [''data/manifest.jsonl''] (Some [1, 2]) 1 2 =
     Some (Inl AssertionError)"
  by code_simp

lemma mismatch_store_run:
  "single_epoch_string_store demo_reader 250 0 [''data/manifest.jsonl''] (Some [1, 2]) 1 2 [[0]] =
     Some (Inl AssertionError, [[0]])"
  by code_simp

lemma demo_diagnostics: "source_diagnostics demo_reader [''data/manifest.jsonl''] = Inr ()"
  by code_simp

text \<open>
  C8 as stated does not hold: the diagnostics run before the assertion on the weights, so
  with a manifest that cannot be read a call with two weights for one source ends with the
  error of the reader, not with the assertion error.
\<close>

theorem weights_mismatch_counterexample:
  "length [1, 2 :: rat] \<noteq> length [''data/missing.jsonl''] \<and>
   single_epoch_string demo_reader 250 [0] [''data/missing.jsonl''] (Some [1, 2]) 1 2 =
     Some (Inl FileNotFoundError) \<and>
   single_epoch_string demo_reader 250 [0] [''data/missing.jsonl''] (Some [1, 2]) 1 2 \<noteq>
     Some (Inl AssertionError)"
proof -
  have "single_epoch_string demo_reader 250 [0] [''data/missing.jsonl''] (Some [1, 2]) 1 2 =
     Some (Inl FileNotFoundError)" by code_simp
  then show ?thesis by simp
qed

text \<open>
  C8, amended. When weights are given and their number differs from the number of sources,
  \<open>_single_epoch_string\<close> fails in its set-up, before the accumulation loop: no shard
  is accumulated, the store is what it was (the cursors are not even copied). The error is
  the assertion error (the configuration error of the specification) when the diagnostics
  at the head of the function return normally, and the error of those diagnostics otherwise.
\<close>

theorem weights_mismatch:
  assumes "weights = Some w" and "length w \<noteq> length paths"
  shows "(source_diagnostics gmf paths = Inr () \<longrightarrow>
            single_epoch_setup gmf num_samples paths weights = Inl AssertionError \<and>
            single_epoch_string gmf num_samples start paths weights nw ws =
              Some (Inl AssertionError) \<and>
            single_epoch_string_store gmf num_samples a paths weights nw ws h =
              Some (Inl AssertionError, h)) \<and>
         (\<forall>e. source_diagnostics gmf paths = Inl e \<longrightarrow>
            single_epoch_setup gmf num_samples paths weights = Inl e \<and>
            single_epoch_string gmf num_samples start paths weights nw ws = Some (Inl e) \<and>
            single_epoch_string_store gmf num_samples a paths weights nw ws h =
              Some (Inl e, h))"
proof -
  have s1: "single_epoch_setup gmf num_samples paths weights = Inl AssertionError"
    if "source_diagnostics gmf paths = Inr ()"
    using that assms by (simp add: single_epoch_setup_def default_weights_def)
  have s2: "single_epoch_setup gmf num_samples paths weights = Inl e"
    if "source_diagnostics gmf paths = Inl e" for e
    using that by (simp add: single_epoch_setup_def)
  have r: "single_epoch_string gmf num_samples start paths weights nw ws = Some (Inl e) \<and>
           single_epoch_string_store gmf num_samples a paths weights nw ws h = Some (Inl e, h)"
    if "single_epoch_setup gmf num_samples paths weights = Inl e" for e
    using that
    by (simp add: single_epoch_string_def single_epoch_committed_def
        single_epoch_accumulated_def single_epoch_string_store_def)
  from s1 s2 r show ?thesis by blast
qed

theorem weights_mismatch_witness:
  "source_diagnostics demo_reader [''data/manifest.jsonl''] = Inr () \<and>
   length [1, 2 :: rat] \<noteq> length [''data/manifest.jsonl''] \<and>
   single_epoch_string demo_reader 250 [0] [''data/manifest.jsonl''] (Some [1, 2]) 1 2 =
     Some (Inl AssertionError) \<and>
   single_epoch_string_store demo_reader 250 0 [''data/manifest.jsonl''] (Some [1, 2]) 1 2 [[0]] =
     Some (Inl AssertionError, [[0]])"
proof -
  have len: "length [1, 2 :: rat] \<noteq> length [''data/manifest.jsonl'']" by simp
  from weights_mismatch [OF refl len, of demo_reader 250 "[0]" 1 2 0 "[[0]]"] demo_diagnostics
  show ?thesis by simp
qed

subsection \<open>The checkpoint counter\<close>










subsection \<open>The projection on workers and GPUs\<close>






lemma filter_sum_Suc:
  "sum_list (map v (filter P [0..<Suc m])) =
     sum_list (map v (filter P [0..<m])) + (if P m then v m else 0)"
  by simp












subsection \<open>The manifest reader\<close>

lemma split_no_sep: "c \<notin> set x \<Longrightarrow> py_split c x = [x]"
  by (induction x) auto

lemma split_sep_append: "c \<notin> set x \<Longrightarrow> py_split c (x @ c # rest) = x # py_split c rest"
  by (induction x) auto

lemma py_split_join:
  "ls \<noteq> [] \<Longrightarrow> (\<forall>l\<in>set ls. c \<notin> set l) \<Longrightarrow> py_split c (py_join [c] ls) = ls"
proof (induction ls)
  case Nil
  then show ?case by simp
next
  case (Cons x ls)
  show ?case
  proof (cases ls)
    case Nil
    with Cons.prems show ?thesis by (simp add: split_no_sep)
  next
    case (Cons y zs)
    with Cons.prems Cons.IH have "py_split c (py_join [c] ls) = ls" by simp
    with Cons Cons.prems show ?thesis by (simp add: split_sep_append)
  qed
qed

lemma py_join_split: "py_join [c] (py_split c s) = s"
proof (induction s)
  case Nil
  show ?case by simp
next
  case (Cons a s)
  show ?case
  proof (cases "a = c")
    case True
    with Cons.IH show ?thesis by (cases "py_split c s") simp_all
  next
    case False
    show ?thesis
    proof (cases "py_split c s")
      case Nil
      with Cons.IH False show ?thesis by simp
    next
      case (Cons x xs)
      with Cons.IH False show ?thesis by (cases xs) auto
    qed
  qed
qed

lemma py_split_pieces: "l \<in> set (py_split c s) \<Longrightarrow> c \<notin> set l"
proof (induction s arbitrary: l)
  case Nil
  then show ?case by simp
next
  case (Cons a s)
  then show ?case by (cases "py_split c s") (auto split: if_splits)
qed

lemma py_split_nonempty: "py_split c s \<noteq> []"
  by (induction s) (auto split: list.splits)

lemma every_content:
  "\<exists>records final. content = py_join [newline] (records @ [final]) \<and>
     (\<forall>l\<in>set records. newline \<notin> set l) \<and> newline \<notin> set final"
proof -
  let ?ps = "py_split newline content"
  have ne: "?ps \<noteq> []" by (rule py_split_nonempty)
  then have "?ps = butlast ?ps @ [last ?ps]" by simp
  then have "content = py_join [newline] (butlast ?ps @ [last ?ps])"
    using py_join_split [of newline content] by simp
  moreover have "\<forall>l\<in>set (butlast ?ps). newline \<notin> set l"
    using py_split_pieces [of _ newline content] by (auto dest: in_set_butlastD)
  moreover have "newline \<notin> set (last ?ps)"
    using py_split_pieces [of "last ?ps" newline content] ne by simp
  ultimately show ?thesis by blast
qed

lemma py_join_nonempty: "final \<noteq> [] \<Longrightarrow> py_join sep (records @ [final]) \<noteq> []"
proof (induction records)
  case Nil
  then show ?case by simp
next
  case (Cons x records)
  then show ?case by (cases "records @ [final]") auto
qed

lemma last_py_join: "final \<noteq> [] \<Longrightarrow> last (py_join sep (records @ [final])) = last final"
proof (induction records)
  case Nil
  show ?case by simp
next
  case (Cons x records)
  from py_join_nonempty [OF Cons.prems, of sep records]
  have ne: "py_join sep (records @ [final]) \<noteq> []" .
  obtain a list where al: "records @ [final] = a # list" by (cases "records @ [final]") auto
  have "py_join sep ((x # records) @ [final]) = x @ sep @ py_join sep (records @ [final])"
    using al by simp
  with ne Cons.IH [OF Cons.prems] show ?case by simp
qed

lemma open_file:
  "get_metadata_file demo_loads demo_fs ''data/open.jsonl'' =
     Inr [\<lparr>shard = ''a'', num_sequences = Some 100, num_chunks = None\<rparr>]"
  by code_simp

text \<open>
  C10. \<open>get_metadata_file\<close> splits the text of the file at the newlines and parses every
  piece but the last. Every text is its pieces joined by newlines (\<open>every_content\<close>); when
  the text is \<open>records\<close> and \<open>final\<close> joined by newlines, the result is the parse
  of \<open>records\<close>: \<open>final\<close>, the text after the last newline, is not parsed and raises
  nothing. When \<open>final\<close> is not empty the text does not end with a newline, and
  \<open>final\<close> is the record that is lost. Nothing downstream sees it: the reader, and with it
  the allocator, the diagnostics and the checkpoint counter, are what they are for the file
  that ends after the last newline.
\<close>

theorem last_segment_dropped:
  assumes content: "fs path = Some (py_join [newline] (records @ [final]))"
    and lines: "\<forall>l\<in>set records. newline \<notin> set l"
    and final: "newline \<notin> set final"
  shows "get_metadata_file loads fs path = emap loads records \<and>
     (final \<noteq> [] \<longrightarrow> last (py_join [newline] (records @ [final])) \<noteq> newline) \<and>
     get_metadata_file loads (fs(path \<mapsto> py_join [newline] (records @ [[]]))) =
       get_metadata_file loads fs \<and>
     single_epoch_string (get_metadata_file loads (fs(path \<mapsto> py_join [newline] (records @ [[]])))) =
       single_epoch_string (get_metadata_file loads fs) \<and>
     count_small_shards (get_metadata_file loads (fs(path \<mapsto> py_join [newline] (records @ [[]])))) =
       count_small_shards (get_metadata_file loads fs) \<and>
     are_sources_imbalanced_with_each_other
         (get_metadata_file loads (fs(path \<mapsto> py_join [newline] (records @ [[]])))) =
       are_sources_imbalanced_with_each_other (get_metadata_file loads fs) \<and>
     log_num_checkpoints (get_metadata_file loads (fs(path \<mapsto> py_join [newline] (records @ [[]])))) =
       log_num_checkpoints (get_metadata_file loads fs)"
proof -
  have split: "py_split newline (py_join [newline] (records @ [x])) = records @ [x]"
    if "newline \<notin> set x" for x
    using py_split_join [of "records @ [x]" newline] lines that by simp
  have r1: "get_metadata_file loads fs path = emap loads records"
    using content split [OF final] by (simp add: get_metadata_file_def)
  have r2: "get_metadata_file loads (fs(path \<mapsto> py_join [newline] (records @ [[]]))) path =
              emap loads records"
    using split [of "[]"] by (simp add: get_metadata_file_def)
  have same: "get_metadata_file loads (fs(path \<mapsto> py_join [newline] (records @ [[]]))) =
       get_metadata_file loads fs"
  proof
    fix p
    show "get_metadata_file loads (fs(path \<mapsto> py_join [newline] (records @ [[]]))) p =
       get_metadata_file loads fs p"
    proof (cases "p = path")
      case True
      with r1 r2 show ?thesis by simp
    next
      case False
      then show ?thesis by (simp add: get_metadata_file_def)
    qed
  qed
  have open_end: "final \<noteq> [] \<longrightarrow> last (py_join [newline] (records @ [final])) \<noteq> newline"
  proof
    assume ne: "final \<noteq> []"
    then have "last final \<in> set final" by simp
    with final have "last final \<noteq> newline" by auto
    with last_py_join [OF ne] show "last (py_join [newline] (records @ [final])) \<noteq> newline"
      by simp
  qed
  from r1 open_end same show ?thesis by simp
qed

theorem last_segment_dropped_witness:
  "demo_fs ''data/open.jsonl'' = Some (record_a @ [newline] @ record_b) \<and>
   demo_loads record_b = Inr \<lparr>shard = ''b'', num_sequences = None, num_chunks = Some 50\<rparr> \<and>
   get_metadata_file demo_loads demo_fs ''data/open.jsonl'' = emap demo_loads [record_a] \<and>
   get_metadata_file demo_loads demo_fs ''data/open.jsonl'' =
     Inr [\<lparr>shard = ''a'', num_sequences = Some 100, num_chunks = None\<rparr>] \<and>
   single_epoch_string (get_metadata_file demo_loads
       (demo_fs(''data/open.jsonl'' \<mapsto> record_a @ [newline]))) =
     single_epoch_string (get_metadata_file demo_loads demo_fs)"
proof -
  have content: "demo_fs ''data/open.jsonl'' = Some (py_join [newline] ([record_a] @ [record_b]))"
    by (simp add: demo_fs_def)
  have lines: "\<forall>l\<in>set [record_a]. newline \<notin> set l"
    by (simp add: record_a_def newline_def)
  have final: "newline \<notin> set record_b"
    by (simp add: record_b_def newline_def)
  have f: "demo_fs ''data/open.jsonl'' = Some (record_a @ [newline] @ record_b)"
    by (simp add: demo_fs_def)
  have b: "demo_loads record_b = Inr \<lparr>shard = ''b'', num_sequences = None, num_chunks = Some 50\<rparr>"
    by (simp add: demo_loads_def record_a_def record_b_def)
  from last_segment_dropped [of demo_fs "''data/open.jsonl''" "[record_a]" record_b demo_loads,
      OF content lines final]
  have "get_metadata_file demo_loads demo_fs ''data/open.jsonl'' = emap demo_loads [record_a]"
    and "single_epoch_string (get_metadata_file demo_loads
       (demo_fs(''data/open.jsonl'' \<mapsto> record_a @ [newline]))) =
     single_epoch_string (get_metadata_file demo_loads demo_fs)"
    by simp_all
  with f b open_file show ?thesis by blast
qed

subsection \<open>The two names of the count\<close>









end
